theory Spec2Isabelle
  imports Main "HOL-Library.AList"
begin

section \<open>Values, errors and results\<close>

text \<open>
  A \<open>Document\<close> of the driver is a JavaScript object: an ordered list of fields. Index
  descriptors are documents too (\<open>mongo-client.ts\<close> types them as \<open>Document\<close> when it
  destructures them). Extended-JSON scalars (dates, object ids, ...) are not told apart
  from the plain ones: no operation of \<open>MongoClient\<close> looks inside a value other than the
  \<open>name\<close> of an index descriptor.
\<close>

datatype jvalue =
    JNull
  | JBool bool
  | JNum int
  | JStr string
  | JArr "jvalue list"
  | JObj "(string \<times> jvalue) list"

type_synonym document = "(string \<times> jvalue) list"

text \<open>
  The errors a call can end with: \<open>NotConnected\<close> is
  \<open>new Error("Not connected to a cluster.")\<close> of the getter \<open>db\<close>, \<open>SourceNotFound\<close> is
  \<open>new Error(`Directory not found: ...`)\<close> of \<open>importDb\<close>, \<open>ConnectionError\<close> is the
  rejection of the driver's \<open>connect\<close>, \<open>ParseError\<close> is an exception of \<open>EJSON.parse\<close> or
  \<open>JSON.parse\<close>.
\<close>

datatype error = NotConnected | ConnectionError | SourceNotFound | ParseError

text \<open>
  What the promise of a transfer resolves with: \<open>Promise<void>\<close> gives \<open>Void\<close>,
  \<open>ImportResult\<close> and \<open>ExportResult\<close> are the interfaces of \<open>config/types.ts\<close>.
\<close>

datatype result =
    Void
  | ImportResult (collections: nat) (documents: nat)
  | ExportResult (collections: nat) (documents: nat) (path: string)

record DbInfo =
  name :: string
  sizeOnDisk :: "nat option"

record CollectionInfo =
  name :: string
  count :: nat

record DbStats =
  name :: string
  collections :: "CollectionInfo list"
  totalDocuments :: nat

definition BATCH_SIZE :: nat where
  "BATCH_SIZE = 500"


section \<open>The driver and the file system\<close>

text \<open>
  The \<open>mongodb\<close> driver and \<open>fs\<close> are not code of the repository. The driver is modelled
  after the double the repository's own tests install for it (\<open>mock.module("mongodb", ...)\<close>
  in \<open>mongo-client.test.ts\<close>), field by field: \<open>dbs\<close> holds the documents of each
  collection of each database in key order, \<open>colIndexes\<close> what \<open>indexes()\<close> answers,
  \<open>insertBatches\<close> and \<open>createdIndexes\<close> log every \<open>insertMany\<close> and \<open>createIndexes\<close>
  call. The double keys the last three by the string \<open>`${dbName}.${colName}`\<close>; the model
  keys them by the pair. All clients share the one state, as in the double.

  \<open>files\<close> is the file system: a directory path is mapped to its entries (file name and
  text) in the order \<open>readdirSync\<close> lists them, \<open>None\<close> when the directory does not exist.
  \<open>join(dir, name)\<close> is the entry \<open>name\<close> of \<open>dir\<close>. \<open>progress\<close> logs the calls of the
  \<open>onCollection\<close> callback; a caller that passes no callback does not read the log.

  As in the double, \<open>insertMany\<close>, \<open>createIndexes\<close> and the listing calls always succeed,
  and so do the file system calls on a directory that exists: the failures of a transfer
  that the model has are the ones \<open>mongo-client.ts\<close> raises itself and the exceptions of
  the parsers.
\<close>

record world =
  dbs :: "(string \<times> (string \<times> document list) list) list"
  colIndexes :: "string \<times> string \<Rightarrow> document list option"
  insertBatches :: "string \<times> string \<Rightarrow> document list list"
  createdIndexes :: "string \<times> string \<Rightarrow> document list list"
  files :: "string \<Rightarrow> (string \<times> string) list option"
  progress :: "(string \<times> nat \<times> nat) list"

text \<open>\<open>client.db(dbName)\<close> of the double: \<open>state.dbs[dbName] ??= {}\<close>.\<close>

definition use_db :: "string \<Rightarrow> world \<Rightarrow> world" where
  "use_db dbName w =
     (case map_of (dbs w) dbName of
        None \<Rightarrow> w\<lparr>dbs := dbs w @ [(dbName, [])]\<rparr>
      | Some _ \<Rightarrow> w)"

text \<open>\<open>(state.dbs[dbName] ?? {})[colName] ?? []\<close>, the snapshot a cursor of \<open>find({})\<close> runs over.\<close>

definition find_all :: "world \<Rightarrow> string \<Rightarrow> string \<Rightarrow> document list" where
  "find_all w dbName colName =
     (case map_of (dbs w) dbName of
        None \<Rightarrow> []
      | Some cols \<Rightarrow> (case map_of cols colName of None \<Rightarrow> [] | Some ds \<Rightarrow> ds))"

definition countDocuments :: "world \<Rightarrow> string \<Rightarrow> string \<Rightarrow> nat" where
  "countDocuments w dbName colName = length (find_all w dbName colName)"

text \<open>\<open>db.listCollections().toArray()\<close>: the keys of \<open>state.dbs[dbName] ?? {}\<close>.\<close>

definition collection_names :: "world \<Rightarrow> string \<Rightarrow> string list" where
  "collection_names w dbName =
     (case map_of (dbs w) dbName of None \<Rightarrow> [] | Some cols \<Rightarrow> map fst cols)"

text \<open>
  \<open>insertMany(batch)\<close>: the batch is appended to the collection (a new collection goes to
  the end of the key order, an existing one keeps its place) and logged.
\<close>

definition insertMany :: "string \<Rightarrow> string \<Rightarrow> document list \<Rightarrow> world \<Rightarrow> world" where
  "insertMany dbName colName batch w =
     (let cols = (case map_of (dbs w) dbName of None \<Rightarrow> [] | Some cs \<Rightarrow> cs);
          old = (case map_of cols colName of None \<Rightarrow> [] | Some ds \<Rightarrow> ds)
      in w\<lparr>dbs := AList.update dbName (AList.update colName (old @ batch) cols) (dbs w),
           insertBatches := (insertBatches w)
             ((dbName, colName) := insertBatches w (dbName, colName) @ [batch])\<rparr>)"

definition implicit_index :: document where
  "implicit_index = [(''v'', JNum 2), (''name'', JStr ''_id_''), (''key'', JObj [(''_id'', JNum 1)])]"

text \<open>\<open>indexes()\<close>: \<open>state.colIndexes[key] ?? [{ v: 2, name: "_id_", key: { _id: 1 } }]\<close>.\<close>

definition indexes :: "world \<Rightarrow> string \<Rightarrow> string \<Rightarrow> document list" where
  "indexes w dbName colName =
     (case colIndexes w (dbName, colName) of None \<Rightarrow> [implicit_index] | Some ix \<Rightarrow> ix)"

definition createIndexes :: "string \<Rightarrow> string \<Rightarrow> document list \<Rightarrow> world \<Rightarrow> world" where
  "createIndexes dbName colName specs w =
     w\<lparr>createdIndexes := (createdIndexes w)
          ((dbName, colName) := createdIndexes w (dbName, colName) @ [specs])\<rparr>"


text \<open>The file system calls of \<open>fs\<close> that \<open>exportDb\<close> and \<open>importDb\<close> make.\<close>

definition existsSync_dir :: "world \<Rightarrow> string \<Rightarrow> bool" where
  "existsSync_dir w dir = (files w dir \<noteq> None)"

definition mkdirSync :: "string \<Rightarrow> world \<Rightarrow> world" where
  "mkdirSync dir w =
     (case files w dir of None \<Rightarrow> w\<lparr>files := (files w)(dir \<mapsto> [])\<rparr> | Some _ \<Rightarrow> w)"

definition entries :: "world \<Rightarrow> string \<Rightarrow> (string \<times> string) list" where
  "entries w dir = (case files w dir of None \<Rightarrow> [] | Some es \<Rightarrow> es)"

definition readdirSync :: "world \<Rightarrow> string \<Rightarrow> string list" where
  "readdirSync w dir = map fst (entries w dir)"

definition file_at :: "world \<Rightarrow> string \<Rightarrow> string \<Rightarrow> string option" where
  "file_at w dir file = map_of (entries w dir) file"

definition existsSync_file :: "world \<Rightarrow> string \<Rightarrow> string \<Rightarrow> bool" where
  "existsSync_file w dir file = (file_at w dir file \<noteq> None)"

definition readFileSync :: "world \<Rightarrow> string \<Rightarrow> string \<Rightarrow> string" where
  "readFileSync w dir file = (case file_at w dir file of None \<Rightarrow> [] | Some t \<Rightarrow> t)"

text \<open>
  \<open>writeFileSync\<close>, and a write stream once it is ended: the file holds the text, replacing
  what it held. Both are only called after \<open>mkdirSync\<close> has made the directory.
\<close>

definition writeFileSync :: "string \<Rightarrow> string \<Rightarrow> string \<Rightarrow> world \<Rightarrow> world" where
  "writeFileSync dir file text w =
     w\<lparr>files := (files w)(dir \<mapsto> AList.update file text (entries w dir))\<rparr>"

definition onCollection :: "string \<Rightarrow> nat \<Rightarrow> nat \<Rightarrow> world \<Rightarrow> world" where
  "onCollection colName i n w = w\<lparr>progress := progress w @ [(colName, i, n)]\<rparr>"

section \<open>The connection\<close>

datatype NativeClient = NativeClient string

record MongoClient =
  client :: "NativeClient option"

definition new_MongoClient :: MongoClient where
  "new_MongoClient = \<lparr>client = None\<rparr>"

text \<open>
  \<open>connect\<close> stores the new handle first and awaits the driver's \<open>connect\<close> after that.
  Whether the driver accepts the URI (within \<open>serverSelectionTimeoutMS: 8000\<close>) is the
  environment's answer \<open>accepts\<close>; the call returns the connection as it is left and the
  outcome. \<open>disconnect\<close> closes the handle, if there is one, and sets \<open>client\<close> to null;
  \<open>db\<close> is the private getter every data operation goes through.
\<close>

definition connect :: "(string \<Rightarrow> bool) \<Rightarrow> MongoClient \<Rightarrow> string \<Rightarrow> MongoClient \<times> (error + unit)" where
  "connect accepts c uri =
     (let c' = c\<lparr>client := Some (NativeClient uri)\<rparr>
      in (c', if accepts uri then Inr () else Inl ConnectionError))"


definition db :: "MongoClient \<Rightarrow> error + NativeClient" where
  "db c = (case client c of None \<Rightarrow> Inl NotConnected | Some h \<Rightarrow> Inr h)"

section \<open>Batching\<close>

text \<open>
  The state of the loop that moves one collection: the \<open>batch\<close> array, the running
  \<open>totalDocuments\<close> and the world the inserts go to. \<open>push_doc\<close> is the loop body
  \<open>batch.push(doc); if (batch.length >= BATCH_SIZE) { insertMany(batch); totalDocuments +=
  batch.length; batch = []; }\<close>, \<open>final_flush\<close> the statement after the loop. The same loop
  stands in \<open>cloneDb\<close> (which keeps no total), \<open>cloneDbToClient\<close> and \<open>importDb\<close>.
\<close>

record transfer =
  batch :: "document list"
  totalDocuments :: nat
  sink :: world

definition push_doc :: "string \<Rightarrow> string \<Rightarrow> transfer \<Rightarrow> document \<Rightarrow> transfer" where
  "push_doc dbName colName st doc =
     (let b = batch st @ [doc]
      in if length b \<ge> BATCH_SIZE
         then \<lparr>batch = [], totalDocuments = totalDocuments st + length b,
                sink = insertMany dbName colName b (sink st)\<rparr>
         else st\<lparr>batch := b\<rparr>)"

definition final_flush :: "string \<Rightarrow> string \<Rightarrow> transfer \<Rightarrow> transfer" where
  "final_flush dbName colName st =
     (if length (batch st) > 0
      then st\<lparr>totalDocuments := totalDocuments st + length (batch st),
              sink := insertMany dbName colName (batch st) (sink st)\<rparr>
      else st)"

text \<open>
  \<open>let batch = []; for await (const doc of cursor) { ... } if (batch.length > 0) { ... }\<close>
\<close>

definition transfer_docs :: "string \<Rightarrow> string \<Rightarrow> document list \<Rightarrow> nat \<Rightarrow> world \<Rightarrow> transfer" where
  "transfer_docs dbName colName docs n w =
     final_flush dbName colName
       (foldl (push_doc dbName colName) \<lparr>batch = [], totalDocuments = n, sink = w\<rparr> docs)"

section \<open>The index codec\<close>

text \<open>
  \<open>indexes.filter((idx) => idx.name !== "_id_")\<close> and
  \<open>.map(({ v: _v, ns: _ns, ...rest }) => rest)\<close>. \<open>userIndexes\<close> is the value of that
  name in \<open>cloneDb\<close>, \<open>cloneDbToClient\<close> and \<open>importDb\<close>; in \<open>exportDb\<close> the value of that
  name is the result of the filter alone.
\<close>

definition not_implicit :: "document \<Rightarrow> bool" where
  "not_implicit idx = (map_of idx ''name'' \<noteq> Some (JStr ''_id_''))"

definition rest :: "document \<Rightarrow> document" where
  "rest idx = filter (\<lambda>(k, x). k \<noteq> ''v'' \<and> k \<noteq> ''ns'') idx"

definition userIndexes :: "document list \<Rightarrow> document list" where
  "userIndexes raw = map rest (filter not_implicit raw)"

section \<open>The file codec\<close>

text \<open>
  \<open>EJSON.stringify\<close>, \<open>EJSON.parse\<close>, \<open>JSON.stringify(_, null, 2)\<close> and \<open>JSON.parse\<close> are
  library functions; the operations take them as a parameter. \<open>None\<close> is a thrown
  exception.
\<close>

record codec =
  ejson_stringify :: "document \<Rightarrow> string"
  ejson_parse :: "string \<Rightarrow> document option"
  json_stringify :: "document list \<Rightarrow> string"
  json_parse :: "string \<Rightarrow> document list option"

definition LF :: char where
  "LF = CHR 0x0A"

definition CR :: char where
  "CR = CHR 0x0D"

text \<open>
  The lines \<open>readline\<close> yields for a text (\<open>crlfDelay: Infinity\<close>): a line ends at LF, at
  CR LF or at a lone CR; what follows the last line end is a line when it is not empty.
  The flag says that the character before was a CR.
\<close>

fun read_lines :: "bool \<Rightarrow> string \<Rightarrow> string \<Rightarrow> string list" where
  "read_lines cr cur [] = (if cur = [] then [] else [cur])"
| "read_lines cr cur (c # cs) =
     (if c = LF then (if cr then read_lines False cur cs else cur # read_lines False [] cs)
      else if c = CR then cur # read_lines True [] cs
      else read_lines False (cur @ [c]) cs)"

text \<open>\<open>String.prototype.trim\<close> on the ASCII white space (tab, LF, VT, FF, CR, space).\<close>

definition is_space :: "char \<Rightarrow> bool" where
  "is_space c = (c \<in> set [CHR 0x09, CHR 0x0A, CHR 0x0B, CHR 0x0C, CHR 0x0D, CHR 0x20])"

definition trim :: "string \<Rightarrow> string" where
  "trim s = rev (dropWhile is_space (rev (dropWhile is_space s)))"

definition endsWith :: "string \<Rightarrow> string \<Rightarrow> bool" where
  "endsWith s suf = (length suf \<le> length s \<and> drop (length s - length suf) s = suf)"

text \<open>\<open>file.replace(/\.jsonl$/, "")\<close>\<close>

definition replace_jsonl :: "string \<Rightarrow> string" where
  "replace_jsonl file =
     (if endsWith file ''.jsonl'' then take (length file - length ''.jsonl'') file else file)"

section \<open>The operations of MongoClient\<close>


definition listCollections :: "MongoClient \<Rightarrow> world \<Rightarrow> string \<Rightarrow> world \<times> (error + CollectionInfo list)" where
  "listCollections c w dbName =
     (case db c of
        Inl e \<Rightarrow> (w, Inl e)
      | Inr _ \<Rightarrow>
          (let w1 = use_db dbName w;
               cols = collection_names w1 dbName
           in (w1, Inr (map (\<lambda>col. \<lparr>CollectionInfo.name = col,
                                     count = countDocuments w1 dbName col\<rparr>) cols))))"

definition getDbStats :: "MongoClient \<Rightarrow> world \<Rightarrow> string \<Rightarrow> world \<times> (error + DbStats)" where
  "getDbStats c w dbName =
     (case listCollections c w dbName of
        (w1, Inl e) \<Rightarrow> (w1, Inl e)
      | (w1, Inr cols) \<Rightarrow>
          (w1, Inr \<lparr>DbStats.name = dbName, collections = cols,
                    totalDocuments = foldl (\<lambda>sum c. sum + count c) 0 cols\<rparr>))"


text \<open>\<open>if (userIndexes.length > 0) { await ... .createIndexes(userIndexes); }\<close>\<close>

definition create_user_indexes :: "string \<Rightarrow> string \<Rightarrow> document list \<Rightarrow> world \<Rightarrow> world" where
  "create_user_indexes dbName colName ixs w =
     (if length ixs > 0 then createIndexes dbName colName ixs w else w)"

text \<open>
  One round of the loop over the collections in \<open>cloneDb\<close> and \<open>cloneDbToClient\<close>: the
  callback, the documents in batches, then the indexes.
\<close>

definition clone_collection :: "string \<Rightarrow> string \<Rightarrow> string \<Rightarrow> nat \<Rightarrow> nat \<Rightarrow> nat \<Rightarrow> world \<Rightarrow> nat \<times> world" where
  "clone_collection sourceDb targetDb col i n moved w =
     (let w1 = onCollection col (i + 1) n w;
          st = transfer_docs targetDb col (find_all w1 sourceDb col) moved w1;
          w2 = sink st;
          ixs = userIndexes (indexes w2 sourceDb col);
          w3 = create_user_indexes targetDb col ixs w2
      in (transfer.totalDocuments st, w3))"

fun clone_loop :: "string \<Rightarrow> string \<Rightarrow> nat \<Rightarrow> string list \<Rightarrow> nat \<Rightarrow> nat \<Rightarrow> world \<Rightarrow> nat \<times> world" where
  "clone_loop sourceDb targetDb n [] i moved w = (moved, w)"
| "clone_loop sourceDb targetDb n (col # cols) i moved w =
     (case clone_collection sourceDb targetDb col i n moved w of
        (moved', w') \<Rightarrow> clone_loop sourceDb targetDb n cols (i + 1) moved' w')"

definition cloneDb :: "MongoClient \<Rightarrow> world \<Rightarrow> string \<Rightarrow> string \<Rightarrow> world \<times> (error + result)" where
  "cloneDb c w sourceDb targetDb =
     (case db c of
        Inl e \<Rightarrow> (w, Inl e)
      | Inr _ \<Rightarrow>
          (let w1 = use_db targetDb (use_db sourceDb w);
               cols = collection_names w1 sourceDb
           in (snd (clone_loop sourceDb targetDb (length cols) cols 0 0 w1), Inr Void)))"

definition cloneDbToClient :: "MongoClient \<Rightarrow> world \<Rightarrow> string \<Rightarrow> MongoClient \<Rightarrow> string \<Rightarrow> world \<times> (error + result)" where
  "cloneDbToClient c w sourceDb targetClient targetDb =
     (case db c of
        Inl e \<Rightarrow> (w, Inl e)
      | Inr _ \<Rightarrow>
          (let w1 = use_db sourceDb w
           in case db targetClient of
                Inl e \<Rightarrow> (w1, Inl e)
              | Inr _ \<Rightarrow>
                  (let w2 = use_db targetDb w1;
                       cols = collection_names w2 sourceDb
                   in case clone_loop sourceDb targetDb (length cols) cols 0 0 w2 of
                        (moved, w3) \<Rightarrow> (w3, Inr (ImportResult (length cols) moved)))))"

text \<open>
  One round of the loop of \<open>exportDb\<close>: every document is written as a line of the record
  file and counted, then the filtered index descriptors are written to the sidecar file.
\<close>

definition write_doc :: "codec \<Rightarrow> string \<times> nat \<Rightarrow> document \<Rightarrow> string \<times> nat" where
  "write_doc cd acc doc = (fst acc @ ejson_stringify cd doc @ [LF], snd acc + 1)"

definition export_collection :: "codec \<Rightarrow> string \<Rightarrow> string \<Rightarrow> string \<Rightarrow> nat \<Rightarrow> nat \<Rightarrow> nat \<Rightarrow> world \<Rightarrow> nat \<times> world" where
  "export_collection cd dbName outDir col i n moved w =
     (let w1 = onCollection col (i + 1) n w;
          written = foldl (write_doc cd) ([], moved) (find_all w1 dbName col);
          w2 = writeFileSync outDir (col @ ''.jsonl'') (fst written) w1;
          ixs = filter not_implicit (indexes w2 dbName col);
          w3 = writeFileSync outDir (col @ ''.indexes.json'') (json_stringify cd ixs) w2
      in (snd written, w3))"

fun export_loop :: "codec \<Rightarrow> string \<Rightarrow> string \<Rightarrow> nat \<Rightarrow> string list \<Rightarrow> nat \<Rightarrow> nat \<Rightarrow> world \<Rightarrow> nat \<times> world" where
  "export_loop cd dbName outDir n [] i moved w = (moved, w)"
| "export_loop cd dbName outDir n (col # cols) i moved w =
     (case export_collection cd dbName outDir col i n moved w of
        (moved', w') \<Rightarrow> export_loop cd dbName outDir n cols (i + 1) moved' w')"

definition exportDb :: "codec \<Rightarrow> MongoClient \<Rightarrow> world \<Rightarrow> string \<Rightarrow> string \<Rightarrow> world \<times> (error + result)" where
  "exportDb cd c w dbName outDir =
     (let w0 = mkdirSync outDir w
      in case db c of
           Inl e \<Rightarrow> (w0, Inl e)
         | Inr _ \<Rightarrow>
             (let w1 = use_db dbName w0;
                  cols = collection_names w1 dbName
              in case export_loop cd dbName outDir (length cols) cols 0 0 w1 of
                   (moved, w2) \<Rightarrow> (w2, Inr (ExportResult (length cols) moved outDir))))"

text \<open>
  The loop over the lines of a record file in \<open>importDb\<close>: a line that is empty once
  trimmed is skipped, any other is parsed and pushed; a line that does not parse ends the
  call there.
\<close>

fun import_lines :: "codec \<Rightarrow> string \<Rightarrow> string \<Rightarrow> string list \<Rightarrow> transfer \<Rightarrow> transfer \<times> (error + unit)" where
  "import_lines cd dbName colName [] st = (st, Inr ())"
| "import_lines cd dbName colName (line # lines) st =
     (let trimmed = trim line
      in if trimmed = [] then import_lines cd dbName colName lines st
         else case ejson_parse cd trimmed of
                None \<Rightarrow> (st, Inl ParseError)
              | Some doc \<Rightarrow> import_lines cd dbName colName lines (push_doc dbName colName st doc))"

definition import_indexes :: "codec \<Rightarrow> string \<Rightarrow> string \<Rightarrow> string \<Rightarrow> world \<Rightarrow> world \<times> (error + unit)" where
  "import_indexes cd dbName inDir colName w =
     (let indexFile = colName @ ''.indexes.json''
      in if existsSync_file w inDir indexFile
         then (case json_parse cd (readFileSync w inDir indexFile) of
                 None \<Rightarrow> (w, Inl ParseError)
               | Some rawIndexes \<Rightarrow>
                   (create_user_indexes dbName colName (userIndexes rawIndexes) w, Inr ()))
         else (w, Inr ()))"

definition import_file :: "codec \<Rightarrow> string \<Rightarrow> string \<Rightarrow> string \<Rightarrow> nat \<Rightarrow> nat \<Rightarrow> nat \<Rightarrow> world \<Rightarrow> world \<times> (error + nat)" where
  "import_file cd dbName inDir file i n moved w =
     (let colName = replace_jsonl file;
          w1 = onCollection colName (i + 1) n w;
          lines = read_lines False [] (readFileSync w1 inDir file)
      in case import_lines cd dbName colName lines \<lparr>batch = [], totalDocuments = moved, sink = w1\<rparr> of
           (st, Inl e) \<Rightarrow> (sink st, Inl e)
         | (st, Inr _) \<Rightarrow>
             (let st' = final_flush dbName colName st
              in case import_indexes cd dbName inDir colName (sink st') of
                   (w2, Inl e) \<Rightarrow> (w2, Inl e)
                 | (w2, Inr _) \<Rightarrow> (w2, Inr (transfer.totalDocuments st'))))"

fun import_loop :: "codec \<Rightarrow> string \<Rightarrow> string \<Rightarrow> nat \<Rightarrow> string list \<Rightarrow> nat \<Rightarrow> nat \<Rightarrow> world \<Rightarrow> world \<times> (error + nat)" where
  "import_loop cd dbName inDir n [] i moved w = (w, Inr moved)"
| "import_loop cd dbName inDir n (file # fs) i moved w =
     (case import_file cd dbName inDir file i n moved w of
        (w', Inl e) \<Rightarrow> (w', Inl e)
      | (w', Inr moved') \<Rightarrow> import_loop cd dbName inDir n fs (i + 1) moved' w')"

definition importDb :: "codec \<Rightarrow> MongoClient \<Rightarrow> world \<Rightarrow> string \<Rightarrow> string \<Rightarrow> world \<times> (error + result)" where
  "importDb cd c w dbName inDir =
     (if \<not> existsSync_dir w inDir then (w, Inl SourceNotFound)
      else case db c of
             Inl e \<Rightarrow> (w, Inl e)
           | Inr _ \<Rightarrow>
               (let w1 = use_db dbName w;
                    fs = filter (\<lambda>f. endsWith f ''.jsonl'') (readdirSync w1 inDir)
                in case import_loop cd dbName inDir (length fs) fs 0 0 w1 of
                     (w2, Inl e) \<Rightarrow> (w2, Inl e)
                   | (w2, Inr moved) \<Rightarrow> (w2, Inr (ImportResult (length fs) moved))))"

section \<open>Observations\<close>

text \<open>The number of documents a database holds, over all its collections.\<close>

definition documents_in :: "world \<Rightarrow> string \<Rightarrow> nat" where
  "documents_in w dbName =
     (case map_of (dbs w) dbName of None \<Rightarrow> 0 | Some cols \<Rightarrow> sum_list (map (\<lambda>(c, ds). length ds) cols))"

text \<open>The world after a sequence of \<open>insertMany\<close> calls on one collection.\<close>

definition insert_all :: "string \<Rightarrow> string \<Rightarrow> document list list \<Rightarrow> world \<Rightarrow> world" where
  "insert_all dbName colName fl w = foldl (\<lambda>w' b. insertMany dbName colName b w') w fl"

text \<open>
  The index descriptors \<open>importDb\<close> takes from the sidecar file of a collection: none
  when the file is absent.
\<close>

definition sidecar_indexes :: "codec \<Rightarrow> world \<Rightarrow> string \<Rightarrow> string \<Rightarrow> document list" where
  "sidecar_indexes cd w dir colName =
     (case file_at w dir (colName @ ''.indexes.json'') of
        None \<Rightarrow> []
      | Some t \<Rightarrow> (case json_parse cd t of None \<Rightarrow> [] | Some raw \<Rightarrow> userIndexes raw))"

text \<open>The record file \<open>exportDb\<close> writes for a list of documents: one line each.\<close>

definition record_text :: "codec \<Rightarrow> document list \<Rightarrow> string" where
  "record_text cd docs = concat (map (\<lambda>d. ejson_stringify cd d @ [LF]) docs)"

text \<open>The documents of a record file, as \<open>importDb\<close> reads them when every line parses.\<close>

definition record_lines :: "string \<Rightarrow> string list" where
  "record_lines text = filter (\<lambda>l. l \<noteq> []) (map trim (read_lines False [] text))"




section \<open>Sample data\<close>

definition empty_world :: world where
  "empty_world = \<lparr>dbs = [], colIndexes = Map.empty, insertBatches = (\<lambda>_. []),
     createdIndexes = (\<lambda>_. []), files = Map.empty, progress = []\<rparr>"

definition alice :: document where
  "alice = [(''name'', JStr ''alice'')]"

definition bob :: document where
  "bob = [(''name'', JStr ''bob'')]"

definition email_1 :: document where
  "email_1 = [(''v'', JNum 2), (''ns'', JStr ''db1.users''), (''name'', JStr ''email_1''),
              (''key'', JObj [(''email'', JNum 1)]), (''unique'', JBool True)]"

definition sample_world :: world where
  "sample_world = empty_world
     \<lparr>dbs := [(''db1'', [(''users'', [alice, bob]), (''posts'', [[]])])],
      colIndexes := [(''db1'', ''users'') \<mapsto> [implicit_index, email_1]]\<rparr>"

text \<open>
  A codec for the sample runs: it writes and reads back the documents and index arrays
  of \<open>sample_world\<close>.
\<close>

definition sample_codec :: codec where
  "sample_codec = \<lparr>
     ejson_stringify = (\<lambda>d. if d = alice then ''{name:alice}''
                          else if d = bob then ''{name:bob}'' else ''{}''),
     ejson_parse = (\<lambda>s. if s = ''{name:alice}'' then Some alice
                      else if s = ''{name:bob}'' then Some bob
                      else if s = ''{}'' then Some [] else None),
     json_stringify = (\<lambda>ixs. if ixs = [] then ''[]''
                         else if ixs = [email_1] then ''[email_1 with v and ns]''
                         else if ixs = [rest email_1] then ''[email_1]'' else ''?''),
     json_parse = (\<lambda>s. if s = ''[]'' then Some []
                     else if s = ''[email_1 with v and ns]'' then Some [email_1]
                     else if s = ''[email_1]'' then Some [rest email_1] else None)\<rparr>"

definition connected :: MongoClient where
  "connected = fst (connect (\<lambda>_. True) new_MongoClient ''mongodb://mock'')"

definition stats_world :: world where
  "stats_world = empty_world
     \<lparr>dbs := [(''shop'', [(''orders'', replicate 10 alice), (''items'', replicate 5 bob)])]\<rparr>"


section \<open>Batches and flushes\<close>

lemma insertBatches_insertMany:
  "insertBatches (insertMany dbName colName b w) key =
     (if key = (dbName, colName) then insertBatches w key @ [b] else insertBatches w key)"
  by (simp add: insertMany_def Let_def)

lemma push_doc_small:
  "length (batch st) + 1 < BATCH_SIZE \<Longrightarrow> push_doc dbName colName st doc = st\<lparr>batch := batch st @ [doc]\<rparr>"
  by (simp add: push_doc_def Let_def)

lemma push_doc_full:
  "BATCH_SIZE \<le> length (batch st) + 1 \<Longrightarrow>
   push_doc dbName colName st doc =
     \<lparr>batch = [], totalDocuments = transfer.totalDocuments st + (length (batch st) + 1),
      sink = insertMany dbName colName (batch st @ [doc]) (sink st)\<rparr>"
  by (simp add: push_doc_def Let_def)

lemma foldl_push_doc:
  assumes "length (batch st) < BATCH_SIZE"
  shows "\<exists>fl. insertBatches (sink (foldl (push_doc dbName colName) st docs)) (dbName, colName)
              = insertBatches (sink st) (dbName, colName) @ fl
    \<and> sink (foldl (push_doc dbName colName) st docs) = insert_all dbName colName fl (sink st)
    \<and> (\<forall>b\<in>set fl. length b = BATCH_SIZE)
    \<and> concat fl @ batch (foldl (push_doc dbName colName) st docs) = batch st @ docs
    \<and> length (batch (foldl (push_doc dbName colName) st docs)) < BATCH_SIZE
    \<and> transfer.totalDocuments (foldl (push_doc dbName colName) st docs)
        = transfer.totalDocuments st + length (concat fl)"
proof (induction docs rule: rev_induct)
  case Nil
  show ?case using assms by (simp add: insert_all_def)
next
  case (snoc doc docs)
  let ?s = "foldl (push_doc dbName colName) st docs"
  from snoc obtain fl where fl:
    "insertBatches (sink ?s) (dbName, colName) = insertBatches (sink st) (dbName, colName) @ fl"
    "\<forall>b\<in>set fl. length b = BATCH_SIZE"
    "concat fl @ batch ?s = batch st @ docs"
    "length (batch ?s) < BATCH_SIZE"
    "transfer.totalDocuments ?s = transfer.totalDocuments st + length (concat fl)"
    "sink ?s = insert_all dbName colName fl (sink st)"
    by blast
  show ?case
  proof (cases "length (batch ?s) + 1 < BATCH_SIZE")
    case True
    have "push_doc dbName colName ?s doc = ?s\<lparr>batch := batch ?s @ [doc]\<rparr>"
      using True by (simp add: push_doc_small)
    moreover have "concat fl @ batch ?s @ [doc] = batch st @ docs @ [doc]"
      using fl(3) by (metis append.assoc)
    ultimately show ?thesis using fl True
      by (intro exI[of _ fl]) simp
  next
    case False
    then have full: "length (batch ?s) + 1 = BATCH_SIZE" using fl(4) by simp
    have step: "push_doc dbName colName ?s doc =
      \<lparr>batch = [], totalDocuments = transfer.totalDocuments ?s + (length (batch ?s) + 1),
       sink = insertMany dbName colName (batch ?s @ [doc]) (sink ?s)\<rparr>"
      using full by (simp add: push_doc_full)
    have c: "concat (fl @ [batch ?s @ [doc]]) = batch st @ docs @ [doc]"
      using fl(3) by (metis append.assoc append_Nil2 concat.simps concat_append)
    have pos: "0 < BATCH_SIZE" by (simp add: BATCH_SIZE_def)
    have len: "length (concat fl) + length (batch ?s) = length (batch st) + length docs"
      using arg_cong[OF fl(3), of length] by simp
    have "insertBatches (sink (foldl (push_doc dbName colName) st (docs @ [doc]))) (dbName, colName)
            = insertBatches (sink st) (dbName, colName) @ (fl @ [batch ?s @ [doc]])"
      using fl(1) by (simp add: step insertBatches_insertMany)
    moreover have "sink (foldl (push_doc dbName colName) st (docs @ [doc]))
            = insert_all dbName colName (fl @ [batch ?s @ [doc]]) (sink st)"
      using fl(6) by (simp add: step insert_all_def)
    moreover have "\<forall>b\<in>set (fl @ [batch ?s @ [doc]]). length b = BATCH_SIZE"
      using fl(2) full by simp
    moreover have "concat (fl @ [batch ?s @ [doc]]) @ batch (foldl (push_doc dbName colName) st (docs @ [doc]))
            = batch st @ docs @ [doc]"
      using c by (simp add: step)
    moreover have "length (batch (foldl (push_doc dbName colName) st (docs @ [doc]))) < BATCH_SIZE"
      using pos by (simp add: step)
    moreover have "transfer.totalDocuments (foldl (push_doc dbName colName) st (docs @ [doc]))
            = transfer.totalDocuments st + length (concat (fl @ [batch ?s @ [doc]]))"
      using fl(5) by (simp add: step)
    ultimately show ?thesis by blast
  qed
qed


lemma transfer_docs_flushes:
  "\<exists>fl. insertBatches (sink (transfer_docs dbName colName docs n w)) (dbName, colName)
          = insertBatches w (dbName, colName) @ fl
      \<and> (\<forall>b\<in>set (butlast fl). length b = BATCH_SIZE)
      \<and> (fl \<noteq> [] \<longrightarrow> 0 < length (last fl) \<and> length (last fl) \<le> BATCH_SIZE)
      \<and> concat fl = docs
      \<and> transfer.totalDocuments (transfer_docs dbName colName docs n w) = n + length docs
      \<and> sink (transfer_docs dbName colName docs n w) = insert_all dbName colName fl w"
proof -
  let ?st0 = "\<lparr>batch = [], totalDocuments = n, sink = w\<rparr>"
  let ?s = "foldl (push_doc dbName colName) ?st0 docs"
  have "length (batch ?st0) < BATCH_SIZE" by (simp add: BATCH_SIZE_def)
  from foldl_push_doc[OF this, of dbName colName docs] obtain fl where fl:
    "insertBatches (sink ?s) (dbName, colName) = insertBatches w (dbName, colName) @ fl"
    "\<forall>b\<in>set fl. length b = BATCH_SIZE"
    "concat fl @ batch ?s = docs"
    "length (batch ?s) < BATCH_SIZE"
    "transfer.totalDocuments ?s = n + length (concat fl)"
    "sink ?s = insert_all dbName colName fl w"
    by auto
  have len: "length (concat fl) + length (batch ?s) = length docs"
    using arg_cong[OF fl(3), of length] by simp
  show ?thesis
  proof (cases "batch ?s = []")
    case True
    then have "transfer_docs dbName colName docs n w = ?s"
      by (simp add: transfer_docs_def final_flush_def)
    moreover have "\<forall>b\<in>set (butlast fl). length b = BATCH_SIZE"
      using fl(2) by (meson in_set_butlastD)
    moreover have "fl \<noteq> [] \<longrightarrow> 0 < length (last fl) \<and> length (last fl) \<le> BATCH_SIZE"
      using fl(2) by (simp add: BATCH_SIZE_def)
    ultimately show ?thesis using fl True len by (intro exI[of _ fl]) simp
  next
    case False
    then have eq: "transfer_docs dbName colName docs n w =
        ?s\<lparr>totalDocuments := transfer.totalDocuments ?s + length (batch ?s),
            sink := insertMany dbName colName (batch ?s) (sink ?s)\<rparr>"
      by (simp add: transfer_docs_def final_flush_def)
    have "insertBatches (sink (transfer_docs dbName colName docs n w)) (dbName, colName)
            = insertBatches w (dbName, colName) @ (fl @ [batch ?s])"
      using fl(1) by (simp add: eq insertBatches_insertMany)
    moreover have "\<forall>b\<in>set (butlast (fl @ [batch ?s])). length b = BATCH_SIZE"
      using fl(2) by simp
    moreover have "0 < length (last (fl @ [batch ?s])) \<and> length (last (fl @ [batch ?s])) \<le> BATCH_SIZE"
      using False fl(4) by simp
    moreover have "concat (fl @ [batch ?s]) = docs"
      using fl(3) by simp
    moreover have "transfer.totalDocuments (transfer_docs dbName colName docs n w) = n + length docs"
      using fl(5) len by (simp add: eq)
    moreover have "sink (transfer_docs dbName colName docs n w) = insert_all dbName colName (fl @ [batch ?s]) w"
      using fl(6) by (simp add: eq insert_all_def)
    ultimately show ?thesis by blast
  qed
qed



lemma import_lines_Inr:
  "import_lines cd dbName colName lines st = (st', Inr u) \<Longrightarrow>
   \<exists>docs. map Some docs = map (ejson_parse cd) (filter (\<lambda>l. l \<noteq> []) (map trim lines))
        \<and> st' = foldl (push_doc dbName colName) st docs"
proof (induction lines arbitrary: st)
  case Nil
  then show ?case by simp
next
  case (Cons line lines)
  show ?case
  proof (cases "trim line = []")
    case True
    with Cons show ?thesis by simp
  next
    case False
    with Cons.prems obtain doc where doc: "ejson_parse cd (trim line) = Some doc"
      and rec: "import_lines cd dbName colName lines (push_doc dbName colName st doc) = (st', Inr u)"
      by (auto simp: Let_def split: option.splits)
    from Cons.IH[OF rec] obtain docs where
      "map Some docs = map (ejson_parse cd) (filter (\<lambda>l. l \<noteq> []) (map trim lines))"
      "st' = foldl (push_doc dbName colName) (push_doc dbName colName st doc) docs"
      by blast
    then show ?thesis using False doc
      by (intro exI[of _ "doc # docs"]) simp
  qed
qed



section \<open>The start of an operation\<close>

lemma foldl_count:
  "foldl (\<lambda>sum c. sum + count c) a cols = a + sum_list (map count cols)"
  by (induction cols arbitrary: a) auto

lemma find_all_use_db [simp]: "find_all (use_db d w) dbName col = find_all w dbName col"
  by (auto simp: find_all_def use_db_def split: option.splits if_splits)

lemma collection_names_use_db [simp]: "collection_names (use_db d w) dbName = collection_names w dbName"
  by (auto simp: collection_names_def use_db_def split: option.splits if_splits)

lemma db_connected: "client c \<noteq> None \<Longrightarrow> \<exists>h. db c = Inr h"
  by (auto simp: db_def)


section \<open>Statistics\<close>

text \<open>
  C9. On a connected client \<open>getDbStats\<close> returns one entry per collection of the database,
  each with the document count of its collection, and \<open>totalDocuments\<close> is the sum of the
  counts of the entries; on a database of two collections with 10 and 5 documents the
  list has 2 entries and the total is 15.
\<close>

theorem getDbStats_total:
  assumes "client c \<noteq> None"
  shows "\<exists>w' stats. getDbStats c w dbName = (w', Inr stats)
     \<and> DbStats.name stats = dbName
     \<and> map CollectionInfo.name (DbStats.collections stats) = collection_names w dbName
     \<and> (\<forall>ci\<in>set (DbStats.collections stats). count ci = countDocuments w dbName (CollectionInfo.name ci))
     \<and> DbStats.totalDocuments stats = sum_list (map count (DbStats.collections stats))"
proof -
  from db_connected[OF assms] obtain h where h: "db c = Inr h" ..
  show ?thesis
    by (simp add: getDbStats_def listCollections_def h Let_def foldl_count countDocuments_def comp_def)
qed

theorem getDbStats_total_witness:
  "client connected \<noteq> None \<and>
   (\<exists>w' stats. getDbStats connected stats_world ''shop'' = (w', Inr stats)
      \<and> length (DbStats.collections stats) = 2 \<and> DbStats.totalDocuments stats = 15)"
proof -
  have c: "client connected \<noteq> None" by (simp add: connected_def connect_def new_MongoClient_def)
  from getDbStats_total[OF c, of stats_world "''shop''"] obtain w' stats where
    s: "getDbStats connected stats_world ''shop'' = (w', Inr stats)"
       "map CollectionInfo.name (DbStats.collections stats) = collection_names stats_world ''shop''"
       "\<forall>ci\<in>set (DbStats.collections stats). count ci = countDocuments stats_world ''shop'' (CollectionInfo.name ci)"
       "DbStats.totalDocuments stats = sum_list (map count (DbStats.collections stats))"
    by blast
  have n: "collection_names stats_world ''shop'' = [''orders'', ''items'']"
    by (simp add: collection_names_def stats_world_def empty_world_def)
  from s(2) n obtain a b where ab: "DbStats.collections stats = [a, b]"
    "CollectionInfo.name a = ''orders''" "CollectionInfo.name b = ''items''"
    by (auto simp: map_eq_Cons_conv)
  have "count a = 10" "count b = 5"
    using s(3) ab by (simp_all add: countDocuments_def find_all_def stats_world_def empty_world_def)
  then show ?thesis using c s(1,4) ab by simp
qed

section \<open>A missing source directory\<close>

text \<open>
  C7. When the source directory does not exist, \<open>importDb\<close> fails with \<open>SourceNotFound\<close>
  and leaves the world as it was: no file is read, no document is inserted, the
  connection is not even looked at.
\<close>

theorem importDb_missing_directory:
  "\<not> existsSync_dir w inDir \<Longrightarrow> importDb cd c w dbName inDir = (w, Inl SourceNotFound)"
  by (simp add: importDb_def)

theorem importDb_missing_directory_witness:
  "\<not> existsSync_dir sample_world ''/nonexistent/xyz''
   \<and> importDb sample_codec connected sample_world ''db1'' ''/nonexistent/xyz'' = (sample_world, Inl SourceNotFound)"
proof -
  have h: "\<not> existsSync_dir sample_world ''/nonexistent/xyz''"
    by (simp add: existsSync_dir_def sample_world_def empty_world_def)
  show ?thesis using h importDb_missing_directory[OF h] by simp
qed

section \<open>Operations on a disconnected client\<close>




section \<open>A failed connect\<close>




section \<open>What a transfer returns\<close>

text \<open>
  C4 as stated fails: \<open>cloneDb\<close> resolves with no value, not with the aggregate of the two
  collections and three documents it has copied.
\<close>

theorem cloneDb_returns_void:
  "snd (cloneDb connected sample_world ''db1'' ''copy'') = Inr Void
   \<and> snd (cloneDb connected sample_world ''db1'' ''copy'') \<noteq> Inr (ImportResult 2 3)
   \<and> length (collection_names sample_world ''db1'') = 2 \<and> documents_in sample_world ''db1'' = 3"
  by (simp add: cloneDb_def connected_def connect_def new_MongoClient_def db_def Let_def
      collection_names_def documents_in_def sample_world_def empty_world_def)

section \<open>What each driver call changes\<close>

lemma insertMany_fields [simp]:
  "colIndexes (insertMany d c b w) = colIndexes w"
  "createdIndexes (insertMany d c b w) = createdIndexes w"
  "files (insertMany d c b w) = files w"
  "progress (insertMany d c b w) = progress w"
  by (simp_all add: insertMany_def Let_def)

lemma find_all_insertMany:
  "find_all (insertMany d c b w) d' c' =
     (if d' = d \<and> c' = c then find_all w d c @ b else find_all w d' c')"
  by (auto simp: find_all_def insertMany_def Let_def update_conv' split: option.splits)

lemma sum_update:
  "sum_list (map (\<lambda>(c, ds). length ds) (AList.update k (old @ b) cols))
     = sum_list (map (\<lambda>(c, ds). length (ds :: 'a list)) cols) + length b"
  if "old = (case map_of cols k of None \<Rightarrow> [] | Some ds \<Rightarrow> ds)"
  using that by (induction cols arbitrary: old) auto

lemma documents_in_insertMany:
  "documents_in (insertMany d c b w) d' = documents_in w d' + (if d' = d then length b else 0)"
  by (auto simp: documents_in_def insertMany_def Let_def update_conv' sum_update split: option.splits)

lemma createIndexes_fields [simp]:
  "dbs (createIndexes d c s w) = dbs w"
  "colIndexes (createIndexes d c s w) = colIndexes w"
  "insertBatches (createIndexes d c s w) = insertBatches w"
  "files (createIndexes d c s w) = files w"
  "progress (createIndexes d c s w) = progress w"
  by (simp_all add: createIndexes_def)

lemma createdIndexes_createIndexes:
  "createdIndexes (createIndexes d c s w) key =
     (if key = (d, c) then createdIndexes w key @ [s] else createdIndexes w key)"
  by (simp add: createIndexes_def)

lemma create_user_indexes_fields [simp]:
  "dbs (create_user_indexes d c s w) = dbs w"
  "colIndexes (create_user_indexes d c s w) = colIndexes w"
  "insertBatches (create_user_indexes d c s w) = insertBatches w"
  "files (create_user_indexes d c s w) = files w"
  "progress (create_user_indexes d c s w) = progress w"
  by (simp_all add: create_user_indexes_def)

lemma createdIndexes_create_user_indexes:
  "createdIndexes (create_user_indexes d c s w) key =
     (if key = (d, c) \<and> s \<noteq> [] then createdIndexes w key @ [s] else createdIndexes w key)"
  by (simp add: create_user_indexes_def createdIndexes_createIndexes)

lemma onCollection_fields [simp]:
  "dbs (onCollection c i n w) = dbs w"
  "colIndexes (onCollection c i n w) = colIndexes w"
  "insertBatches (onCollection c i n w) = insertBatches w"
  "createdIndexes (onCollection c i n w) = createdIndexes w"
  "files (onCollection c i n w) = files w"
  by (simp_all add: onCollection_def)

lemma writeFileSync_fields [simp]:
  "dbs (writeFileSync dir f t w) = dbs w"
  "colIndexes (writeFileSync dir f t w) = colIndexes w"
  "insertBatches (writeFileSync dir f t w) = insertBatches w"
  "createdIndexes (writeFileSync dir f t w) = createdIndexes w"
  "progress (writeFileSync dir f t w) = progress w"
  by (simp_all add: writeFileSync_def)

lemma use_db_fields [simp]:
  "colIndexes (use_db d w) = colIndexes w"
  "insertBatches (use_db d w) = insertBatches w"
  "createdIndexes (use_db d w) = createdIndexes w"
  "files (use_db d w) = files w"
  "progress (use_db d w) = progress w"
  by (simp_all add: use_db_def split: option.splits)

lemma mkdirSync_fields [simp]:
  "dbs (mkdirSync dir w) = dbs w"
  "colIndexes (mkdirSync dir w) = colIndexes w"
  "insertBatches (mkdirSync dir w) = insertBatches w"
  "createdIndexes (mkdirSync dir w) = createdIndexes w"
  "progress (mkdirSync dir w) = progress w"
  by (simp_all add: mkdirSync_def split: option.splits)

text \<open>An observation reads one field of the world.\<close>

lemma find_all_cong: "dbs w' = dbs w \<Longrightarrow> find_all w' = find_all w"
  by (intro ext) (simp add: find_all_def)

lemma collection_names_cong: "dbs w' = dbs w \<Longrightarrow> collection_names w' = collection_names w"
  by (intro ext) (simp add: collection_names_def)

lemma documents_in_cong: "dbs w' = dbs w \<Longrightarrow> documents_in w' = documents_in w"
  by (intro ext) (simp add: documents_in_def)

lemma indexes_cong: "colIndexes w' = colIndexes w \<Longrightarrow> indexes w' = indexes w"
  by (intro ext) (simp add: indexes_def)

lemma entries_cong: "files w' = files w \<Longrightarrow> entries w' = entries w"
  by (intro ext) (simp add: entries_def)

lemma file_at_cong:
  assumes "files w' = files w"
  shows "file_at w' = file_at w"
  by (intro ext) (simp add: file_at_def entries_cong[OF assms])

lemma readFileSync_cong:
  assumes "files w' = files w"
  shows "readFileSync w' = readFileSync w"
  by (intro ext) (simp add: readFileSync_def file_at_cong[OF assms])

lemma existsSync_file_cong:
  assumes "files w' = files w"
  shows "existsSync_file w' = existsSync_file w"
  by (intro ext) (simp add: existsSync_file_def file_at_cong[OF assms])

lemma documents_in_use_db [simp]: "documents_in (use_db d w) dbName = documents_in w dbName"
  by (auto simp: documents_in_def use_db_def split: option.splits if_splits)

section \<open>What a sequence of inserts changes\<close>

lemma insert_all_Nil [simp]: "insert_all d c [] w = w"
  by (simp add: insert_all_def)

lemma insert_all_Cons [simp]: "insert_all d c (b # fl) w = insert_all d c fl (insertMany d c b w)"
  by (simp add: insert_all_def)

lemma insert_all_fields [simp]:
  "colIndexes (insert_all d c fl w) = colIndexes w"
  "createdIndexes (insert_all d c fl w) = createdIndexes w"
  "files (insert_all d c fl w) = files w"
  "progress (insert_all d c fl w) = progress w"
  by (induction fl arbitrary: w; simp)+

lemma insertBatches_insert_all:
  "insertBatches (insert_all d c fl w) key =
     (if key = (d, c) then insertBatches w key @ fl else insertBatches w key)"
  by (induction fl arbitrary: w) (auto simp: insertBatches_insertMany)

lemma find_all_insert_all:
  "find_all (insert_all d c fl w) d' c' =
     (if d' = d \<and> c' = c then find_all w d c @ concat fl else find_all w d' c')"
  by (induction fl arbitrary: w) (auto simp: find_all_insertMany)

lemma documents_in_insert_all:
  "documents_in (insert_all d c fl w) d' =
     documents_in w d' + (if d' = d then length (concat fl) else 0)"
  by (induction fl arbitrary: w) (auto simp: documents_in_insertMany)

section \<open>The index codec\<close>

lemma map_of_rest:
  "map_of (rest idx) k = (if k = ''v'' \<or> k = ''ns'' then None else map_of idx k)"
  by (induction idx) (auto simp: rest_def)

lemma keys_rest: "map fst (rest idx) = filter (\<lambda>k. k \<noteq> ''v'' \<and> k \<noteq> ''ns'') (map fst idx)"
  by (induction idx) (auto simp: rest_def)

lemma not_implicit_rest: "not_implicit (rest idx) = not_implicit idx"
  by (simp add: not_implicit_def map_of_rest)


lemma length_userIndexes: "length (userIndexes raw) = length (filter not_implicit raw)"
  by (simp add: userIndexes_def)

lemma nth_userIndexes:
  "i < length (userIndexes raw) \<Longrightarrow> userIndexes raw ! i = rest (filter not_implicit raw ! i)"
  by (simp add: userIndexes_def)

section \<open>What one round of a clone changes\<close>

lemma clone_collection_effect:
  "\<exists>fl. concat fl = find_all w sourceDb col
      \<and> clone_collection sourceDb targetDb col i n moved w =
          (moved + length (find_all w sourceDb col),
           create_user_indexes targetDb col (userIndexes (indexes w sourceDb col))
             (insert_all targetDb col fl (onCollection col (Suc i) n w)))"
proof -
  let ?w1 = "onCollection col (Suc i) n w"
  have f: "find_all ?w1 = find_all w" by (rule find_all_cong) simp
  from transfer_docs_flushes[of targetDb col "find_all w sourceDb col" moved ?w1]
  obtain fl where fl: "concat fl = find_all w sourceDb col"
    "transfer.totalDocuments (transfer_docs targetDb col (find_all w sourceDb col) moved ?w1)
       = moved + length (find_all w sourceDb col)"
    "sink (transfer_docs targetDb col (find_all w sourceDb col) moved ?w1) = insert_all targetDb col fl ?w1"
    by blast
  have ix: "indexes (insert_all targetDb col fl ?w1) = indexes w" by (rule indexes_cong) simp
  show ?thesis
    by (intro exI[of _ fl]) (simp add: clone_collection_def Let_def f fl ix)
qed

lemma clone_loop_effect:
  assumes "distinct cols"
  shows "\<exists>w'. clone_loop sourceDb targetDb n cols i moved w =
            (moved + sum_list (map (\<lambda>c. length (find_all w sourceDb c)) cols), w')
      \<and> colIndexes w' = colIndexes w \<and> files w' = files w
      \<and> (\<forall>d c. createdIndexes w' (d, c) = createdIndexes w (d, c) @
            (if d = targetDb \<and> c \<in> set cols \<and> userIndexes (indexes w sourceDb c) \<noteq> []
             then [userIndexes (indexes w sourceDb c)] else []))
      \<and> (\<forall>d c. find_all w' d c =
            (if d = targetDb \<and> c \<in> set cols then find_all w d c @ find_all w sourceDb c
             else find_all w d c))
      \<and> (\<forall>d. documents_in w' d = documents_in w d +
            (if d = targetDb then sum_list (map (\<lambda>c. length (find_all w sourceDb c)) cols) else 0))"
  using assms
proof (induction cols arbitrary: i moved w)
  case Nil
  show ?case by simp
next
  case (Cons col cols)
  from clone_collection_effect[of w sourceDb col targetDb i n moved] obtain fl where
    fl: "concat fl = find_all w sourceDb col"
    and step: "clone_collection sourceDb targetDb col i n moved w =
          (moved + length (find_all w sourceDb col),
           create_user_indexes targetDb col (userIndexes (indexes w sourceDb col))
             (insert_all targetDb col fl (onCollection col (Suc i) n w)))"
    by blast
  let ?w1 = "create_user_indexes targetDb col (userIndexes (indexes w sourceDb col))
             (insert_all targetDb col fl (onCollection col (Suc i) n w))"
  have d: "distinct cols" "col \<notin> set cols" using Cons.prems by simp_all
  have ci: "colIndexes ?w1 = colIndexes w" and fi: "files ?w1 = files w" by simp_all
  have ix: "indexes ?w1 = indexes w" by (rule indexes_cong) (rule ci)
  have fa0: "find_all (onCollection col (Suc i) n w) = find_all w" by (rule find_all_cong) simp
  have fa1: "find_all ?w1 = find_all (insert_all targetDb col fl (onCollection col (Suc i) n w))"
    by (rule find_all_cong) simp
  have fa: "\<And>d c. find_all ?w1 d c =
      (if d = targetDb \<and> c = col then find_all w d c @ find_all w sourceDb col else find_all w d c)"
    by (simp add: fa1 find_all_insert_all fa0 fl)
  have rest_src: "\<And>c. c \<in> set cols \<Longrightarrow> find_all ?w1 sourceDb c = find_all w sourceDb c"
    using d(2) by (auto simp: fa)
  have sums: "sum_list (map (\<lambda>c. length (find_all ?w1 sourceDb c)) cols)
      = sum_list (map (\<lambda>c. length (find_all w sourceDb c)) cols)"
    by (rule arg_cong[where f = sum_list]) (simp add: rest_src)
  have di0: "documents_in (onCollection col (Suc i) n w) = documents_in w" by (rule documents_in_cong) simp
  have di1: "documents_in ?w1 = documents_in (insert_all targetDb col fl (onCollection col (Suc i) n w))"
    by (rule documents_in_cong) simp
  have di: "\<And>d. documents_in ?w1 d = documents_in w d + (if d = targetDb then length (find_all w sourceDb col) else 0)"
    by (simp add: di1 documents_in_insert_all di0 fl)
  have cr: "\<And>d c. createdIndexes ?w1 (d, c) = createdIndexes w (d, c) @
      (if d = targetDb \<and> c = col \<and> userIndexes (indexes w sourceDb col) \<noteq> []
       then [userIndexes (indexes w sourceDb col)] else [])"
    by (simp add: createdIndexes_create_user_indexes)
  from Cons.IH[OF d(1), of "Suc i" "moved + length (find_all w sourceDb col)" ?w1]
  obtain w' where w': "clone_loop sourceDb targetDb n cols (Suc i) (moved + length (find_all w sourceDb col)) ?w1 =
            (moved + length (find_all w sourceDb col) + sum_list (map (\<lambda>c. length (find_all ?w1 sourceDb c)) cols), w')"
      "colIndexes w' = colIndexes ?w1" "files w' = files ?w1"
      "\<forall>d c. createdIndexes w' (d, c) = createdIndexes ?w1 (d, c) @
            (if d = targetDb \<and> c \<in> set cols \<and> userIndexes (indexes ?w1 sourceDb c) \<noteq> []
             then [userIndexes (indexes ?w1 sourceDb c)] else [])"
      "\<forall>d c. find_all w' d c =
            (if d = targetDb \<and> c \<in> set cols then find_all ?w1 d c @ find_all ?w1 sourceDb c
             else find_all ?w1 d c)"
      "\<forall>d. documents_in w' d = documents_in ?w1 d +
            (if d = targetDb then sum_list (map (\<lambda>c. length (find_all ?w1 sourceDb c)) cols) else 0)"
    by blast
  have "clone_loop sourceDb targetDb n (col # cols) i moved w =
            (moved + sum_list (map (\<lambda>c. length (find_all w sourceDb c)) (col # cols)), w')"
    by (simp add: step w'(1) sums)
  moreover have "colIndexes w' = colIndexes w" "files w' = files w"
    using w'(2,3) ci fi by simp_all
  moreover have "\<forall>d c. createdIndexes w' (d, c) = createdIndexes w (d, c) @
            (if d = targetDb \<and> c \<in> set (col # cols) \<and> userIndexes (indexes w sourceDb c) \<noteq> []
             then [userIndexes (indexes w sourceDb c)] else [])"
    using w'(4) d(2) by (auto simp: cr ix)
  moreover have "\<forall>d c. find_all w' d c =
            (if d = targetDb \<and> c \<in> set (col # cols) then find_all w d c @ find_all w sourceDb c
             else find_all w d c)"
    using w'(5) d(2) rest_src by (auto simp: fa)
  moreover have "\<forall>d. documents_in w' d = documents_in w d +
            (if d = targetDb then sum_list (map (\<lambda>c. length (find_all w sourceDb c)) (col # cols)) else 0)"
    using w'(6) by (simp add: di sums)
  ultimately show ?case by blast
qed

section \<open>What one round of an import changes\<close>


lemma import_lines_Inl:
  "import_lines cd dbName colName lines st = (st', Inl e) \<Longrightarrow>
   \<exists>l\<in>set (filter (\<lambda>l. l \<noteq> []) (map trim lines)). ejson_parse cd l = None"
  by (induction lines arbitrary: st) (auto simp: Let_def split: option.splits if_splits)

lemma import_indexes_Inr:
  "import_indexes cd dbName dir colName w = (w', Inr u) \<Longrightarrow>
   w' = create_user_indexes dbName colName (sidecar_indexes cd w dir colName) w
   \<and> (\<forall>t. file_at w dir (colName @ ''.indexes.json'') = Some t \<longrightarrow> json_parse cd t \<noteq> None)"
  by (auto simp: import_indexes_def sidecar_indexes_def existsSync_file_def readFileSync_def
      create_user_indexes_def Let_def split: option.splits if_splits)


lemma import_file_Inr:
  assumes "import_file cd dbName dir file i n moved w = (w', Inr m)"
  shows "\<exists>docs fl. map Some docs = map (ejson_parse cd) (record_lines (readFileSync w dir file))
      \<and> concat fl = docs
      \<and> m = moved + length (record_lines (readFileSync w dir file))
      \<and> w' = create_user_indexes dbName (replace_jsonl file)
                (sidecar_indexes cd w dir (replace_jsonl file))
                (insert_all dbName (replace_jsonl file) fl (onCollection (replace_jsonl file) (Suc i) n w))
      \<and> (\<forall>t. file_at w dir (replace_jsonl file @ ''.indexes.json'') = Some t \<longrightarrow> json_parse cd t \<noteq> None)"
proof -
  let ?col = "replace_jsonl file"
  let ?w1 = "onCollection ?col (Suc i) n w"
  let ?st0 = "\<lparr>batch = [], totalDocuments = moved, sink = ?w1\<rparr>"
  have rf: "readFileSync ?w1 = readFileSync w" by (rule readFileSync_cong) simp
  let ?lines = "read_lines False [] (readFileSync w dir file)"
  obtain st r where il: "import_lines cd dbName ?col ?lines ?st0 = (st, r)" by (cases "import_lines cd dbName ?col ?lines ?st0")
  from assms il obtain u where r: "r = Inr u"
    by (cases r) (auto simp: import_file_def Let_def rf)
  obtain w2 r2 where ii: "import_indexes cd dbName dir ?col (sink (final_flush dbName ?col st)) = (w2, r2)"
    by (cases "import_indexes cd dbName dir ?col (sink (final_flush dbName ?col st))")
  from assms il r ii obtain u2 where r2: "r2 = Inr u2" and w2: "w' = w2"
    and m: "m = transfer.totalDocuments (final_flush dbName ?col st)"
    by (cases r2) (auto simp: import_file_def Let_def rf)
  from import_lines_Inr[OF il[unfolded r]] obtain docs where
    docs: "map Some docs = map (ejson_parse cd) (filter (\<lambda>l. l \<noteq> []) (map trim ?lines))"
    and st: "st = foldl (push_doc dbName ?col) ?st0 docs" by blast
  have ff: "final_flush dbName ?col st = transfer_docs dbName ?col docs moved ?w1"
    by (simp add: st transfer_docs_def)
  from transfer_docs_flushes[of dbName ?col docs moved ?w1] obtain fl where fl:
    "concat fl = docs"
    "transfer.totalDocuments (transfer_docs dbName ?col docs moved ?w1) = moved + length docs"
    "sink (transfer_docs dbName ?col docs moved ?w1) = insert_all dbName ?col fl ?w1"
    by blast
  have len: "length docs = length (record_lines (readFileSync w dir file))"
    using arg_cong[OF docs, of length] by (simp add: record_lines_def)
  let ?w3 = "insert_all dbName ?col fl ?w1"
  have fa: "file_at ?w3 = file_at w" by (rule file_at_cong) simp
  have sc: "sidecar_indexes cd ?w3 dir ?col = sidecar_indexes cd w dir ?col"
    by (simp add: sidecar_indexes_def fa)
  from import_indexes_Inr[OF ii[unfolded r2 ff fl(3)]]
  have "w2 = create_user_indexes dbName ?col (sidecar_indexes cd w dir ?col) ?w3"
    and "\<forall>t. file_at w dir (?col @ ''.indexes.json'') = Some t \<longrightarrow> json_parse cd t \<noteq> None"
    by (simp_all add: sc fa)
  then show ?thesis
    using docs fl(1) m w2 len by (intro exI[of _ docs] exI[of _ fl]) (simp add: ff fl(2) record_lines_def)
qed


lemma import_file_fields:
  assumes "import_file cd dbName dir file i n moved w = (w', Inr m)"
  shows "files w' = files w" "colIndexes w' = colIndexes w"
    "\<And>d. documents_in w' d = documents_in w d + (if d = dbName then m - moved else 0)"
    "\<And>d c. createdIndexes w' (d, c) = createdIndexes w (d, c) @
        (if d = dbName \<and> c = replace_jsonl file \<and> sidecar_indexes cd w dir c \<noteq> []
         then [sidecar_indexes cd w dir c] else [])"
    "m = moved + length (record_lines (readFileSync w dir file))"
proof -
  let ?col = "replace_jsonl file"
  from import_file_Inr[OF assms] obtain docs fl where
    docs: "map Some docs = map (ejson_parse cd) (record_lines (readFileSync w dir file))"
    and fl: "concat fl = docs"
    and m: "m = moved + length (record_lines (readFileSync w dir file))"
    and w': "w' = create_user_indexes dbName ?col (sidecar_indexes cd w dir ?col)
                (insert_all dbName ?col fl (onCollection ?col (Suc i) n w))"
    by blast
  have len: "length docs = length (record_lines (readFileSync w dir file))"
    using arg_cong[OF docs, of length] by simp
  show "files w' = files w" "colIndexes w' = colIndexes w" by (simp_all add: w')
  show "m = moved + length (record_lines (readFileSync w dir file))" by (rule m)
  have di0: "documents_in (onCollection ?col (Suc i) n w) = documents_in w"
    by (rule documents_in_cong) simp
  have di1: "documents_in w' = documents_in (insert_all dbName ?col fl (onCollection ?col (Suc i) n w))"
    unfolding w' by (rule documents_in_cong) simp
  show "\<And>d. documents_in w' d = documents_in w d + (if d = dbName then m - moved else 0)"
    by (simp add: di1 documents_in_insert_all di0 fl len m)
  show "\<And>d c. createdIndexes w' (d, c) = createdIndexes w (d, c) @
        (if d = dbName \<and> c = replace_jsonl file \<and> sidecar_indexes cd w dir c \<noteq> []
         then [sidecar_indexes cd w dir c] else [])"
    by (auto simp: w' createdIndexes_create_user_indexes)
qed

lemma sidecar_indexes_cong:
  assumes "files w' = files w"
  shows "sidecar_indexes cd w' = sidecar_indexes cd w"
  by (intro ext) (simp add: sidecar_indexes_def file_at_cong[OF assms])

lemma import_loop_effect:
  assumes "import_loop cd dbName dir n fs i moved w = (w', Inr m)"
  shows "m = moved + sum_list (map (\<lambda>f. length (record_lines (readFileSync w dir f))) fs)
      \<and> files w' = files w \<and> colIndexes w' = colIndexes w
      \<and> (\<forall>d. documents_in w' d = documents_in w d + (if d = dbName then m - moved else 0))
      \<and> (distinct (map replace_jsonl fs) \<longrightarrow>
           (\<forall>d c. createdIndexes w' (d, c) = createdIndexes w (d, c) @
              (if d = dbName \<and> c \<in> replace_jsonl ` set fs \<and> sidecar_indexes cd w dir c \<noteq> []
               then [sidecar_indexes cd w dir c] else [])))"
  using assms
proof (induction fs arbitrary: i moved w)
  case Nil
  then show ?case by simp
next
  case (Cons f0 fs)
  obtain w1 r1 where s1: "import_file cd dbName dir f0 i n moved w = (w1, r1)"
    by (cases "import_file cd dbName dir f0 i n moved w")
  from Cons.prems s1 obtain m1 where r1: "r1 = Inr m1"
    and rec: "import_loop cd dbName dir n fs (Suc i) m1 w1 = (w', Inr m)"
    by (cases r1) auto
  note f1 = import_file_fields[OF s1[unfolded r1]]
  have rf: "readFileSync w1 = readFileSync w" by (rule readFileSync_cong) (rule f1(1))
  have sc: "sidecar_indexes cd w1 = sidecar_indexes cd w" by (rule sidecar_indexes_cong) (rule f1(1))
  from Cons.IH[OF rec] have ih:
    "m = m1 + sum_list (map (\<lambda>f. length (record_lines (readFileSync w1 dir f))) fs)"
    "files w' = files w1" "colIndexes w' = colIndexes w1"
    "\<forall>d. documents_in w' d = documents_in w1 d + (if d = dbName then m - m1 else 0)"
    "distinct (map replace_jsonl fs) \<longrightarrow>
           (\<forall>d c. createdIndexes w' (d, c) = createdIndexes w1 (d, c) @
              (if d = dbName \<and> c \<in> replace_jsonl ` set fs \<and> sidecar_indexes cd w1 dir c \<noteq> []
               then [sidecar_indexes cd w1 dir c] else []))"
    by blast+
  have "m = moved + sum_list (map (\<lambda>f. length (record_lines (readFileSync w dir f))) (f0 # fs))"
    using ih(1) f1(5) by (simp add: rf)
  moreover have "files w' = files w" "colIndexes w' = colIndexes w"
    using ih(2,3) f1(1,2) by simp_all
  moreover have "\<forall>d. documents_in w' d = documents_in w d + (if d = dbName then m - moved else 0)"
    using ih(1,4) f1(3,5) by simp
  moreover have "distinct (map replace_jsonl (f0 # fs)) \<longrightarrow>
           (\<forall>d c. createdIndexes w' (d, c) = createdIndexes w (d, c) @
              (if d = dbName \<and> c \<in> replace_jsonl ` set (f0 # fs) \<and> sidecar_indexes cd w dir c \<noteq> []
               then [sidecar_indexes cd w dir c] else []))"
  proof
    assume d: "distinct (map replace_jsonl (f0 # fs))"
    then have d1: "distinct (map replace_jsonl fs)" and d2: "replace_jsonl f0 \<notin> replace_jsonl ` set fs"
      by simp_all
    from ih(5) d1 have c: "\<forall>d c. createdIndexes w' (d, c) = createdIndexes w1 (d, c) @
              (if d = dbName \<and> c \<in> replace_jsonl ` set fs \<and> sidecar_indexes cd w dir c \<noteq> []
               then [sidecar_indexes cd w dir c] else [])"
      by (simp add: sc)
    show "\<forall>d c. createdIndexes w' (d, c) = createdIndexes w (d, c) @
              (if d = dbName \<and> c \<in> replace_jsonl ` set (f0 # fs) \<and> sidecar_indexes cd w dir c \<noteq> []
               then [sidecar_indexes cd w dir c] else [])"
      using d2 by (auto simp: c f1(4))
  qed
  ultimately show ?case by blast
qed


section \<open>File names\<close>

lemma endsWith_append [simp]: "endsWith (c @ suf) suf"
  by (simp add: endsWith_def)

lemma replace_jsonl_append [simp]: "replace_jsonl (c @ ''.jsonl'') = c"
  by (simp add: replace_jsonl_def)

lemma endsWith_replace_jsonl: "endsWith f ''.jsonl'' \<Longrightarrow> replace_jsonl f @ ''.jsonl'' = f"
proof -
  assume a: "endsWith f ''.jsonl''"
  then have "drop (length f - length ''.jsonl'') f = ''.jsonl''" by (simp add: endsWith_def)
  then have "take (length f - length ''.jsonl'') f @ ''.jsonl'' = f"
    by (metis append_take_drop_id)
  with a show ?thesis by (simp add: replace_jsonl_def)
qed

lemma endsWith_last: "endsWith f suf \<Longrightarrow> suf \<noteq> [] \<Longrightarrow> last f = last suf"
proof -
  assume a: "endsWith f suf" and b: "suf \<noteq> []"
  from a have "drop (length f - length suf) f = suf" by (simp add: endsWith_def)
  then have "f = take (length f - length suf) f @ suf" by (metis append_take_drop_id)
  then obtain p where "f = p @ suf" ..
  then show ?thesis using b by simp
qed

lemma sidecar_not_record [simp]: "\<not> endsWith (c @ ''.indexes.json'') ''.jsonl''"
proof
  assume "endsWith (c @ ''.indexes.json'') ''.jsonl''"
  from endsWith_last[OF this] show False by simp
qed

lemma record_not_sidecar [simp]: "c @ ''.jsonl'' \<noteq> c' @ ''.indexes.json''"
proof
  assume "c @ ''.jsonl'' = c' @ ''.indexes.json''"
  then have "last (c @ ''.jsonl'') = last (c' @ ''.indexes.json'')" by simp
  then show False by simp
qed

lemma sidecar_not_record' [simp]: "c' @ ''.indexes.json'' \<noteq> c @ ''.jsonl''"
  using record_not_sidecar[of c c'] by (rule not_sym)

lemma inj_on_replace_jsonl:
  "endsWith f ''.jsonl'' \<Longrightarrow> endsWith g ''.jsonl'' \<Longrightarrow> replace_jsonl f = replace_jsonl g \<Longrightarrow> f = g"
  by (metis endsWith_replace_jsonl)

lemma distinct_replace_jsonl:
  "distinct fs \<Longrightarrow> \<forall>f\<in>set fs. endsWith f ''.jsonl'' \<Longrightarrow> distinct (map replace_jsonl fs)"
  by (induction fs) (auto dest: inj_on_replace_jsonl)

section \<open>What a write changes\<close>

lemma entries_writeFileSync:
  "entries (writeFileSync dir f t w) dir' =
     (if dir' = dir then AList.update f t (entries w dir) else entries w dir')"
  by (simp add: writeFileSync_def entries_def)

lemma file_at_writeFileSync:
  "file_at (writeFileSync dir f t w) dir' f' =
     (if dir' = dir \<and> f' = f then Some t else file_at w dir' f')"
  by (simp add: file_at_def entries_writeFileSync update_conv')

lemma readdirSync_writeFileSync:
  "readdirSync (writeFileSync dir f t w) dir =
     (if f \<in> set (readdirSync w dir) then readdirSync w dir else readdirSync w dir @ [f])"
  by (simp add: readdirSync_def entries_writeFileSync update_keys)

lemma foldl_write_doc:
  "foldl (write_doc cd) (t, m) docs = (t @ record_text cd docs, m + length docs)"
  by (induction docs arbitrary: t m) (simp_all add: write_doc_def record_text_def)

section \<open>What one round of an export changes\<close>

lemma export_collection_effect:
  "export_collection cd dbName dir col i n moved w =
     (moved + length (find_all w dbName col),
      writeFileSync dir (col @ ''.indexes.json'') (json_stringify cd (filter not_implicit (indexes w dbName col)))
        (writeFileSync dir (col @ ''.jsonl'') (record_text cd (find_all w dbName col))
          (onCollection col (Suc i) n w)))"
proof -
  let ?w1 = "onCollection col (Suc i) n w"
  have f: "find_all ?w1 = find_all w" by (rule find_all_cong) simp
  have ix: "\<And>t. indexes (writeFileSync dir (col @ ''.jsonl'') t ?w1) = indexes w"
    by (rule indexes_cong) simp
  show ?thesis
    by (simp add: export_collection_def Let_def f ix foldl_write_doc)
qed

lemma export_loop_effect:
  "\<exists>w'. export_loop cd dbName dir n cols i moved w =
            (moved + sum_list (map (\<lambda>c. length (find_all w dbName c)) cols), w')
      \<and> dbs w' = dbs w \<and> colIndexes w' = colIndexes w
      \<and> insertBatches w' = insertBatches w \<and> createdIndexes w' = createdIndexes w
      \<and> (\<forall>c\<in>set cols. file_at w' dir (c @ ''.jsonl'') = Some (record_text cd (find_all w dbName c))
            \<and> file_at w' dir (c @ ''.indexes.json'')
                = Some (json_stringify cd (filter not_implicit (indexes w dbName c))))
      \<and> (\<forall>f. (\<forall>c\<in>set cols. f \<noteq> c @ ''.jsonl'' \<and> f \<noteq> c @ ''.indexes.json'') \<longrightarrow>
            file_at w' dir f = file_at w dir f)
      \<and> (distinct cols \<and> (\<forall>c\<in>set cols. c @ ''.jsonl'' \<notin> set (readdirSync w dir)) \<longrightarrow>
            filter (\<lambda>f. endsWith f ''.jsonl'') (readdirSync w' dir)
              = filter (\<lambda>f. endsWith f ''.jsonl'') (readdirSync w dir) @ map (\<lambda>c. c @ ''.jsonl'') cols)
      \<and> (cols \<noteq> [] \<longrightarrow> existsSync_dir w' dir) \<and> (existsSync_dir w dir \<longrightarrow> existsSync_dir w' dir)"
proof (induction cols arbitrary: i moved w)
  case Nil
  show ?case by simp
next
  case (Cons col cols)
  let ?text = "record_text cd (find_all w dbName col)"
  let ?side = "json_stringify cd (filter not_implicit (indexes w dbName col))"
  let ?w0 = "onCollection col (Suc i) n w"
  let ?w1 = "writeFileSync dir (col @ ''.indexes.json'') ?side (writeFileSync dir (col @ ''.jsonl'') ?text ?w0)"
  have step: "export_collection cd dbName dir col i n moved w = (moved + length (find_all w dbName col), ?w1)"
    by (rule export_collection_effect)
  have fa: "find_all ?w1 = find_all w" by (rule find_all_cong) simp
  have ix: "indexes ?w1 = indexes w" by (rule indexes_cong) simp
  have f0: "file_at ?w0 = file_at w" by (rule file_at_cong) simp
  have e0: "entries ?w0 = entries w" by (rule entries_cong) simp
  have r0: "readdirSync ?w0 dir = readdirSync w dir" by (simp add: readdirSync_def e0)
  have f1: "\<And>f. file_at ?w1 dir f =
      (if f = col @ ''.indexes.json'' then Some ?side
       else if f = col @ ''.jsonl'' then Some ?text else file_at w dir f)"
    by (simp add: file_at_writeFileSync f0)
  have r1: "filter (\<lambda>f. endsWith f ''.jsonl'') (readdirSync ?w1 dir) =
      filter (\<lambda>f. endsWith f ''.jsonl'') (readdirSync w dir)
        @ (if col @ ''.jsonl'' \<in> set (readdirSync w dir) then [] else [col @ ''.jsonl''])"
    by (simp add: readdirSync_writeFileSync r0)
  have ex1: "existsSync_dir ?w1 dir" by (simp add: existsSync_dir_def writeFileSync_def)
  from Cons.IH[of "Suc i" "moved + length (find_all w dbName col)" ?w1]
  obtain w' where w':
    "export_loop cd dbName dir n cols (Suc i) (moved + length (find_all w dbName col)) ?w1 =
       (moved + length (find_all w dbName col) + sum_list (map (\<lambda>c. length (find_all ?w1 dbName c)) cols), w')"
    "dbs w' = dbs ?w1" "colIndexes w' = colIndexes ?w1"
    "insertBatches w' = insertBatches ?w1" "createdIndexes w' = createdIndexes ?w1"
    "\<forall>c\<in>set cols. file_at w' dir (c @ ''.jsonl'') = Some (record_text cd (find_all ?w1 dbName c))
            \<and> file_at w' dir (c @ ''.indexes.json'')
                = Some (json_stringify cd (filter not_implicit (indexes ?w1 dbName c)))"
    "\<forall>f. (\<forall>c\<in>set cols. f \<noteq> c @ ''.jsonl'' \<and> f \<noteq> c @ ''.indexes.json'') \<longrightarrow>
            file_at w' dir f = file_at ?w1 dir f"
    "distinct cols \<and> (\<forall>c\<in>set cols. c @ ''.jsonl'' \<notin> set (readdirSync ?w1 dir)) \<longrightarrow>
            filter (\<lambda>f. endsWith f ''.jsonl'') (readdirSync w' dir)
              = filter (\<lambda>f. endsWith f ''.jsonl'') (readdirSync ?w1 dir) @ map (\<lambda>c. c @ ''.jsonl'') cols"
    "existsSync_dir ?w1 dir \<longrightarrow> existsSync_dir w' dir"
    by blast
  have "export_loop cd dbName dir n (col # cols) i moved w =
            (moved + sum_list (map (\<lambda>c. length (find_all w dbName c)) (col # cols)), w')"
    by (simp add: step w'(1) fa)
  moreover have "dbs w' = dbs w" "colIndexes w' = colIndexes w"
    "insertBatches w' = insertBatches w" "createdIndexes w' = createdIndexes w"
    using w'(2-5) by simp_all
  moreover have "\<forall>c\<in>set (col # cols). file_at w' dir (c @ ''.jsonl'') = Some (record_text cd (find_all w dbName c))
            \<and> file_at w' dir (c @ ''.indexes.json'')
                = Some (json_stringify cd (filter not_implicit (indexes w dbName c)))"
  proof
    fix c assume c: "c \<in> set (col # cols)"
    show "file_at w' dir (c @ ''.jsonl'') = Some (record_text cd (find_all w dbName c))
            \<and> file_at w' dir (c @ ''.indexes.json'')
                = Some (json_stringify cd (filter not_implicit (indexes w dbName c)))"
    proof (cases "c \<in> set cols")
      case True
      then show ?thesis using w'(6) by (simp add: fa ix)
    next
      case False
      then have cc: "c = col" using c by simp
      have "\<forall>c'\<in>set cols. col @ ''.jsonl'' \<noteq> c' @ ''.jsonl'' \<and> col @ ''.jsonl'' \<noteq> c' @ ''.indexes.json''"
        using False cc by auto
      then have a: "file_at w' dir (col @ ''.jsonl'') = file_at ?w1 dir (col @ ''.jsonl'')"
        using w'(7) by blast
      have "\<forall>c'\<in>set cols. col @ ''.indexes.json'' \<noteq> c' @ ''.jsonl'' \<and> col @ ''.indexes.json'' \<noteq> c' @ ''.indexes.json''"
        using False cc by auto
      then have b: "file_at w' dir (col @ ''.indexes.json'') = file_at ?w1 dir (col @ ''.indexes.json'')"
        using w'(7) by blast
      show ?thesis unfolding cc a b by (simp add: f1)
    qed
  qed
  moreover have "\<forall>f. (\<forall>c\<in>set (col # cols). f \<noteq> c @ ''.jsonl'' \<and> f \<noteq> c @ ''.indexes.json'') \<longrightarrow>
            file_at w' dir f = file_at w dir f"
    using w'(7) by (simp add: f1)
  moreover have "distinct (col # cols) \<and> (\<forall>c\<in>set (col # cols). c @ ''.jsonl'' \<notin> set (readdirSync w dir)) \<longrightarrow>
            filter (\<lambda>f. endsWith f ''.jsonl'') (readdirSync w' dir)
              = filter (\<lambda>f. endsWith f ''.jsonl'') (readdirSync w dir) @ map (\<lambda>c. c @ ''.jsonl'') (col # cols)"
  proof
    assume h: "distinct (col # cols) \<and> (\<forall>c\<in>set (col # cols). c @ ''.jsonl'' \<notin> set (readdirSync w dir))"
    have keys1: "set (readdirSync ?w1 dir) = set (readdirSync w dir) \<union> {col @ ''.jsonl'', col @ ''.indexes.json''}"
      by (auto simp: readdirSync_writeFileSync r0)
    have "\<forall>c\<in>set cols. c @ ''.jsonl'' \<notin> set (readdirSync ?w1 dir)"
      using h by (auto simp: keys1)
    with h w'(8) have "filter (\<lambda>f. endsWith f ''.jsonl'') (readdirSync w' dir)
              = filter (\<lambda>f. endsWith f ''.jsonl'') (readdirSync ?w1 dir) @ map (\<lambda>c. c @ ''.jsonl'') cols"
      by simp
    then show "filter (\<lambda>f. endsWith f ''.jsonl'') (readdirSync w' dir)
              = filter (\<lambda>f. endsWith f ''.jsonl'') (readdirSync w dir) @ map (\<lambda>c. c @ ''.jsonl'') (col # cols)"
      using h by (simp add: r1)
  qed
  moreover have "existsSync_dir w' dir" using w'(9) ex1 by blast
  ultimately show ?case by blast
qed

section \<open>The operations as a whole\<close>

lemma entries_mkdirSync [simp]: "entries (mkdirSync dir w) = entries w"
  by (intro ext) (simp add: entries_def mkdirSync_def split: option.splits)

lemma existsSync_dir_mkdirSync [simp]: "existsSync_dir (mkdirSync dir w) dir"
  by (simp add: existsSync_dir_def mkdirSync_def split: option.splits)

lemma find_all_mkdirSync [simp]: "find_all (mkdirSync dir w) = find_all w"
  by (rule find_all_cong) simp

lemma indexes_start [simp]:
  "indexes (use_db d w) = indexes w" "indexes (mkdirSync dir w) = indexes w"
  by (rule indexes_cong, simp)+

lemma entries_use_db [simp]: "entries (use_db d w) = entries w"
  by (rule entries_cong) simp

lemma file_at_start [simp]:
  "file_at (use_db d w) = file_at w" "file_at (mkdirSync dir w) = file_at w"
  by (intro ext, simp add: file_at_def)+

lemma readdirSync_start [simp]:
  "readdirSync (use_db d w) = readdirSync w" "readdirSync (mkdirSync dir w) = readdirSync w"
  by (intro ext, simp add: readdirSync_def)+

lemma readFileSync_use_db [simp]: "readFileSync (use_db d w) = readFileSync w"
  by (rule readFileSync_cong) simp

lemma existsSync_dir_use_db [simp]: "existsSync_dir (use_db d w) = existsSync_dir w"
  by (intro ext) (simp add: existsSync_dir_def)

lemma collection_names_mkdirSync [simp]: "collection_names (mkdirSync dir w) = collection_names w"
  by (rule collection_names_cong) simp

lemma documents_in_mkdirSync [simp]: "documents_in (mkdirSync dir w) = documents_in w"
  by (rule documents_in_cong) simp

lemma sum_counts:
  "sum_list (map (\<lambda>c. length (find_all w dbName c)) cols) = sum_list (map (countDocuments w dbName) cols)"
  by (induction cols) (simp_all add: countDocuments_def)

lemma exportDb_effect:
  assumes "client c \<noteq> None"
  shows "\<exists>w'. exportDb cd c w dbName dir =
            (w', Inr (ExportResult (length (collection_names w dbName))
                       (sum_list (map (countDocuments w dbName) (collection_names w dbName))) dir))
      \<and> find_all w' = find_all w \<and> documents_in w' = documents_in w
      \<and> collection_names w' = collection_names w
      \<and> colIndexes w' = colIndexes w
      \<and> insertBatches w' = insertBatches w \<and> createdIndexes w' = createdIndexes w
      \<and> (\<forall>col\<in>set (collection_names w dbName).
            file_at w' dir (col @ ''.jsonl'') = Some (record_text cd (find_all w dbName col))
            \<and> file_at w' dir (col @ ''.indexes.json'')
                = Some (json_stringify cd (filter not_implicit (indexes w dbName col))))
      \<and> (distinct (collection_names w dbName)
           \<and> (\<forall>f\<in>set (readdirSync w dir). \<not> endsWith f ''.jsonl'') \<longrightarrow>
            filter (\<lambda>f. endsWith f ''.jsonl'') (readdirSync w' dir)
              = map (\<lambda>c. c @ ''.jsonl'') (collection_names w dbName))
      \<and> existsSync_dir w' dir"
proof -
  from db_connected[OF assms] obtain h where h: "db c = Inr h" ..
  let ?w1 = "use_db dbName (mkdirSync dir w)"
  let ?cols = "collection_names w dbName"
  from export_loop_effect[of cd dbName dir "length ?cols" ?cols 0 0 ?w1]
  obtain w' where w':
    "export_loop cd dbName dir (length ?cols) ?cols 0 0 ?w1 =
            (0 + sum_list (map (\<lambda>c. length (find_all ?w1 dbName c)) ?cols), w')"
    "dbs w' = dbs ?w1" "colIndexes w' = colIndexes ?w1"
    "insertBatches w' = insertBatches ?w1" "createdIndexes w' = createdIndexes ?w1"
    "\<forall>c\<in>set ?cols. file_at w' dir (c @ ''.jsonl'') = Some (record_text cd (find_all ?w1 dbName c))
            \<and> file_at w' dir (c @ ''.indexes.json'')
                = Some (json_stringify cd (filter not_implicit (indexes ?w1 dbName c)))"
    "distinct ?cols \<and> (\<forall>c\<in>set ?cols. c @ ''.jsonl'' \<notin> set (readdirSync ?w1 dir)) \<longrightarrow>
            filter (\<lambda>f. endsWith f ''.jsonl'') (readdirSync w' dir)
              = filter (\<lambda>f. endsWith f ''.jsonl'') (readdirSync ?w1 dir) @ map (\<lambda>c. c @ ''.jsonl'') ?cols"
    "existsSync_dir ?w1 dir \<longrightarrow> existsSync_dir w' dir"
    by blast
  have fa: "find_all w' = find_all ?w1" by (rule find_all_cong) (rule w'(2))
  have di: "documents_in w' = documents_in ?w1" by (rule documents_in_cong) (rule w'(2))
  have cn: "collection_names w' = collection_names ?w1" by (rule collection_names_cong) (rule w'(2))
  have "exportDb cd c w dbName dir =
            (w', Inr (ExportResult (length ?cols) (sum_list (map (countDocuments w dbName) ?cols)) dir))"
    using w'(1) by (simp add: exportDb_def Let_def h sum_counts fun_eq_iff)
  moreover have "find_all w' = find_all w" "documents_in w' = documents_in w"
    "collection_names w' = collection_names w"
    by (simp_all add: fa di cn fun_eq_iff)
  moreover have "colIndexes w' = colIndexes w" "insertBatches w' = insertBatches w"
    "createdIndexes w' = createdIndexes w"
    using w'(3-5) by simp_all
  moreover have "\<forall>col\<in>set ?cols.
            file_at w' dir (col @ ''.jsonl'') = Some (record_text cd (find_all w dbName col))
            \<and> file_at w' dir (col @ ''.indexes.json'')
                = Some (json_stringify cd (filter not_implicit (indexes w dbName col)))"
    using w'(6) by (simp add: fun_eq_iff)
  moreover have "distinct ?cols \<and> (\<forall>f\<in>set (readdirSync w dir). \<not> endsWith f ''.jsonl'') \<longrightarrow>
            filter (\<lambda>f. endsWith f ''.jsonl'') (readdirSync w' dir) = map (\<lambda>c. c @ ''.jsonl'') ?cols"
  proof
    assume a: "distinct ?cols \<and> (\<forall>f\<in>set (readdirSync w dir). \<not> endsWith f ''.jsonl'')"
    then have "\<forall>c\<in>set ?cols. c @ ''.jsonl'' \<notin> set (readdirSync ?w1 dir)"
      by (auto simp: fun_eq_iff)
    moreover have "filter (\<lambda>f. endsWith f ''.jsonl'') (readdirSync ?w1 dir) = []"
      using a by (simp add: filter_empty_conv)
    ultimately show "filter (\<lambda>f. endsWith f ''.jsonl'') (readdirSync w' dir) = map (\<lambda>c. c @ ''.jsonl'') ?cols"
      using a w'(7) by simp
  qed
  moreover have "existsSync_dir w' dir" using w'(8) by simp
  ultimately show ?thesis by blast
qed

lemma clone_start:
  "find_all (use_db t (use_db s w)) = find_all w"
  "indexes (use_db t (use_db s w)) = indexes w"
  "collection_names (use_db t (use_db s w)) = collection_names w"
  "documents_in (use_db t (use_db s w)) = documents_in w"
  by (simp_all add: fun_eq_iff)

lemma cloneDb_effect:
  assumes "client c \<noteq> None" "distinct (collection_names w sourceDb)"
  shows "\<exists>w'. cloneDb c w sourceDb targetDb = (w', Inr Void)
      \<and> (\<forall>d col. createdIndexes w' (d, col) = createdIndexes w (d, col) @
            (if d = targetDb \<and> col \<in> set (collection_names w sourceDb)
                \<and> userIndexes (indexes w sourceDb col) \<noteq> []
             then [userIndexes (indexes w sourceDb col)] else []))
      \<and> (\<forall>d. documents_in w' d = documents_in w d +
            (if d = targetDb then sum_list (map (countDocuments w sourceDb) (collection_names w sourceDb)) else 0))"
proof -
  from db_connected[OF assms(1)] obtain h where h: "db c = Inr h" ..
  let ?w1 = "use_db targetDb (use_db sourceDb w)"
  let ?cols = "collection_names w sourceDb"
  from clone_loop_effect[OF assms(2), of sourceDb targetDb "length ?cols" 0 0 ?w1]
  obtain w' where w':
    "clone_loop sourceDb targetDb (length ?cols) ?cols 0 0 ?w1 =
            (0 + sum_list (map (\<lambda>c. length (find_all ?w1 sourceDb c)) ?cols), w')"
    "\<forall>d c. createdIndexes w' (d, c) = createdIndexes ?w1 (d, c) @
            (if d = targetDb \<and> c \<in> set ?cols \<and> userIndexes (indexes ?w1 sourceDb c) \<noteq> []
             then [userIndexes (indexes ?w1 sourceDb c)] else [])"
    "\<forall>d. documents_in w' d = documents_in ?w1 d +
            (if d = targetDb then sum_list (map (\<lambda>c. length (find_all ?w1 sourceDb c)) ?cols) else 0)"
    by blast
  have "cloneDb c w sourceDb targetDb = (w', Inr Void)"
    using w'(1) by (simp add: cloneDb_def Let_def h clone_start)
  moreover have "\<forall>d col. createdIndexes w' (d, col) = createdIndexes w (d, col) @
            (if d = targetDb \<and> col \<in> set ?cols \<and> userIndexes (indexes w sourceDb col) \<noteq> []
             then [userIndexes (indexes w sourceDb col)] else [])"
    using w'(2) by (simp add: clone_start)
  moreover have "\<forall>d. documents_in w' d = documents_in w d +
            (if d = targetDb then sum_list (map (countDocuments w sourceDb) ?cols) else 0)"
    using w'(3) by (simp add: clone_start sum_counts)
  ultimately show ?thesis by blast
qed

lemma cloneDbToClient_effect:
  assumes "client c \<noteq> None" "client targetClient \<noteq> None" "distinct (collection_names w sourceDb)"
  shows "\<exists>w'. cloneDbToClient c w sourceDb targetClient targetDb =
            (w', Inr (ImportResult (length (collection_names w sourceDb))
                        (sum_list (map (countDocuments w sourceDb) (collection_names w sourceDb)))))
      \<and> (\<forall>d col. createdIndexes w' (d, col) = createdIndexes w (d, col) @
            (if d = targetDb \<and> col \<in> set (collection_names w sourceDb)
                \<and> userIndexes (indexes w sourceDb col) \<noteq> []
             then [userIndexes (indexes w sourceDb col)] else []))
      \<and> (\<forall>d. documents_in w' d = documents_in w d +
            (if d = targetDb then sum_list (map (countDocuments w sourceDb) (collection_names w sourceDb)) else 0))"
proof -
  from db_connected[OF assms(1)] obtain h where h: "db c = Inr h" ..
  from db_connected[OF assms(2)] obtain h' where h': "db targetClient = Inr h'" ..
  let ?w1 = "use_db targetDb (use_db sourceDb w)"
  let ?cols = "collection_names w sourceDb"
  from clone_loop_effect[OF assms(3), of sourceDb targetDb "length ?cols" 0 0 ?w1]
  obtain w' where w':
    "clone_loop sourceDb targetDb (length ?cols) ?cols 0 0 ?w1 =
            (0 + sum_list (map (\<lambda>c. length (find_all ?w1 sourceDb c)) ?cols), w')"
    "\<forall>d c. createdIndexes w' (d, c) = createdIndexes ?w1 (d, c) @
            (if d = targetDb \<and> c \<in> set ?cols \<and> userIndexes (indexes ?w1 sourceDb c) \<noteq> []
             then [userIndexes (indexes ?w1 sourceDb c)] else [])"
    "\<forall>d. documents_in w' d = documents_in ?w1 d +
            (if d = targetDb then sum_list (map (\<lambda>c. length (find_all ?w1 sourceDb c)) ?cols) else 0)"
    by blast
  have "cloneDbToClient c w sourceDb targetClient targetDb =
            (w', Inr (ImportResult (length ?cols) (sum_list (map (countDocuments w sourceDb) ?cols))))"
    using w'(1) by (simp add: cloneDbToClient_def Let_def h h' clone_start sum_counts)
  moreover have "\<forall>d col. createdIndexes w' (d, col) = createdIndexes w (d, col) @
            (if d = targetDb \<and> col \<in> set ?cols \<and> userIndexes (indexes w sourceDb col) \<noteq> []
             then [userIndexes (indexes w sourceDb col)] else [])"
    using w'(2) by (simp add: clone_start)
  moreover have "\<forall>d. documents_in w' d = documents_in w d +
            (if d = targetDb then sum_list (map (countDocuments w sourceDb) ?cols) else 0)"
    using w'(3) by (simp add: clone_start sum_counts)
  ultimately show ?thesis by blast
qed

lemma sidecar_indexes_use_db [simp]: "sidecar_indexes cd (use_db d w) = sidecar_indexes cd w"
  by (rule sidecar_indexes_cong) simp

lemma importDb_effect:
  assumes "importDb cd c w dbName dir = (w', Inr r)"
  shows "r = ImportResult (length (filter (\<lambda>f. endsWith f ''.jsonl'') (readdirSync w dir)))
              (sum_list (map (\<lambda>f. length (record_lines (readFileSync w dir f)))
                 (filter (\<lambda>f. endsWith f ''.jsonl'') (readdirSync w dir))))
      \<and> files w' = files w \<and> colIndexes w' = colIndexes w
      \<and> (\<forall>d. documents_in w' d = documents_in w d + (if d = dbName then documents r else 0))
      \<and> (distinct (readdirSync w dir) \<longrightarrow>
           (\<forall>d col. createdIndexes w' (d, col) = createdIndexes w (d, col) @
              (if d = dbName \<and> col \<in> replace_jsonl ` {f \<in> set (readdirSync w dir). endsWith f ''.jsonl''}
                  \<and> sidecar_indexes cd w dir col \<noteq> []
               then [sidecar_indexes cd w dir col] else [])))"
proof -
  let ?fs = "filter (\<lambda>f. endsWith f ''.jsonl'') (readdirSync w dir)"
  let ?w1 = "use_db dbName w"
  from assms have ex: "existsSync_dir w dir" by (auto simp: importDb_def split: if_splits)
  from assms ex obtain h where h: "db c = Inr h"
    by (cases "db c") (auto simp: importDb_def)
  obtain w2 r2 where il: "import_loop cd dbName dir (length ?fs) ?fs 0 0 ?w1 = (w2, r2)"
    by (cases "import_loop cd dbName dir (length ?fs) ?fs 0 0 ?w1")
  from assms ex h il obtain m where r2: "r2 = Inr m" and r: "r = ImportResult (length ?fs) m" and w2: "w' = w2"
    by (cases r2) (auto simp: importDb_def Let_def)
  from import_loop_effect[OF il[unfolded r2]] have eff:
    "m = 0 + sum_list (map (\<lambda>f. length (record_lines (readFileSync ?w1 dir f))) ?fs)"
    "files w2 = files ?w1" "colIndexes w2 = colIndexes ?w1"
    "\<forall>d. documents_in w2 d = documents_in ?w1 d + (if d = dbName then m - 0 else 0)"
    "distinct (map replace_jsonl ?fs) \<longrightarrow>
           (\<forall>d c. createdIndexes w2 (d, c) = createdIndexes ?w1 (d, c) @
              (if d = dbName \<and> c \<in> replace_jsonl ` set ?fs \<and> sidecar_indexes cd ?w1 dir c \<noteq> []
               then [sidecar_indexes cd ?w1 dir c] else []))"
    by blast+
  have "r = ImportResult (length ?fs) (sum_list (map (\<lambda>f. length (record_lines (readFileSync w dir f))) ?fs))"
    using r eff(1) by simp
  moreover have "files w' = files w" "colIndexes w' = colIndexes w"
    using eff(2,3) w2 by simp_all
  moreover have "\<forall>d. documents_in w' d = documents_in w d + (if d = dbName then documents r else 0)"
    using eff(4) w2 r by simp
  moreover have "distinct (readdirSync w dir) \<longrightarrow>
           (\<forall>d col. createdIndexes w' (d, col) = createdIndexes w (d, col) @
              (if d = dbName \<and> col \<in> replace_jsonl ` {f \<in> set (readdirSync w dir). endsWith f ''.jsonl''}
                  \<and> sidecar_indexes cd w dir col \<noteq> []
               then [sidecar_indexes cd w dir col] else []))"
  proof
    assume "distinct (readdirSync w dir)"
    then have "distinct (map replace_jsonl ?fs)"
      by (intro distinct_replace_jsonl) simp_all
    with eff(5) show "\<forall>d col. createdIndexes w' (d, col) = createdIndexes w (d, col) @
              (if d = dbName \<and> col \<in> replace_jsonl ` {f \<in> set (readdirSync w dir). endsWith f ''.jsonl''}
                  \<and> sidecar_indexes cd w dir col \<noteq> []
               then [sidecar_indexes cd w dir col] else [])"
      by (simp add: w2)
  qed
  ultimately show ?thesis by blast
qed

section \<open>The index sidecar file\<close>

text \<open>
  C1 as stated fails: the sidecar file \<open>exportDb\<close> writes for the collection \<open>users\<close> holds
  the descriptor \<open>email_1\<close> with its \<open>v\<close> and \<open>ns\<close> fields, which is not the text of the
  normalized descriptors.
\<close>

theorem exportDb_sidecar_keeps_v_and_ns:
  "file_at (fst (exportDb sample_codec connected sample_world ''db1'' ''out'')) ''out'' ''users.indexes.json''
     = Some (json_stringify sample_codec [email_1])
   \<and> map_of email_1 ''v'' = Some (JNum 2) \<and> map_of email_1 ''ns'' = Some (JStr ''db1.users'')
   \<and> json_stringify sample_codec [email_1]
       \<noteq> json_stringify sample_codec (userIndexes (indexes sample_world ''db1'' ''users''))"
  by code_simp

text \<open>
  C1, amended. For every collection written by \<open>exportDb\<close>, the sidecar file
  \<open><collection>.indexes.json\<close> holds the JSON text of the index descriptors of the
  collection without the descriptor named \<open>_id_\<close>; every other descriptor is written as
  \<open>indexes()\<close> gave it, all fields kept.
\<close>

theorem exportDb_sidecar:
  assumes "client c \<noteq> None" and "col \<in> set (collection_names w dbName)"
  shows "file_at (fst (exportDb cd c w dbName outDir)) outDir (col @ ''.indexes.json'')
           = Some (json_stringify cd (filter not_implicit (indexes w dbName col)))
     \<and> (\<forall>idx\<in>set (filter not_implicit (indexes w dbName col)).
           map_of idx ''name'' \<noteq> Some (JStr ''_id_'') \<and> idx \<in> set (indexes w dbName col))"
proof -
  from exportDb_effect[OF assms(1), of cd w dbName outDir] assms(2)
  have "file_at (fst (exportDb cd c w dbName outDir)) outDir (col @ ''.indexes.json'')
           = Some (json_stringify cd (filter not_implicit (indexes w dbName col)))"
    by auto
  then show ?thesis by (simp add: not_implicit_def)
qed

theorem exportDb_sidecar_witness:
  "client connected \<noteq> None \<and> ''users'' \<in> set (collection_names sample_world ''db1'')
   \<and> file_at (fst (exportDb sample_codec connected sample_world ''db1'' ''out'')) ''out''
        (''users'' @ ''.indexes.json'') = Some ''[email_1 with v and ns]''"
proof -
  have c: "client connected \<noteq> None" by (simp add: connected_def connect_def new_MongoClient_def)
  have m: "''users'' \<in> set (collection_names sample_world ''db1'')"
    by (simp add: collection_names_def sample_world_def empty_world_def)
  have v: "json_stringify sample_codec (filter not_implicit (indexes sample_world ''db1'' ''users''))
      = ''[email_1 with v and ns]''"
    by code_simp
  show ?thesis using c m exportDb_sidecar[OF c m, of sample_codec "''out''"] by (simp only: v) simp
qed

section \<open>The result of a transfer\<close>

text \<open>
  C4, amended. On connected clients \<open>cloneDbToClient\<close> and \<open>importDb\<close> return on success
  the aggregate of the collections and documents transferred, \<open>exportDb\<close> returns it with
  the output directory path, and \<open>cloneDb\<close> returns no value. The collections are the
  listed collections of the source (for \<open>importDb\<close> the record files of the directory),
  the documents are theirs (for \<open>importDb\<close> the lines that are not blank), and that many
  documents are added to the target database.
\<close>

theorem transfer_results:
  assumes "client c \<noteq> None" and "client targetClient \<noteq> None"
    and "distinct (collection_names w sourceDb)"
  shows "snd (cloneDb c w sourceDb targetDb) = Inr Void
     \<and> snd (cloneDbToClient c w sourceDb targetClient targetDb)
          = Inr (ImportResult (length (collection_names w sourceDb))
                   (sum_list (map (countDocuments w sourceDb) (collection_names w sourceDb))))
     \<and> documents_in (fst (cloneDbToClient c w sourceDb targetClient targetDb)) targetDb
          = documents_in w targetDb
            + sum_list (map (countDocuments w sourceDb) (collection_names w sourceDb))
     \<and> snd (exportDb cd c w sourceDb dir)
          = Inr (ExportResult (length (collection_names w sourceDb))
                   (sum_list (map (countDocuments w sourceDb) (collection_names w sourceDb))) dir)
     \<and> (\<forall>r. snd (importDb cd c w targetDb dir) = Inr r \<longrightarrow>
           r = ImportResult (length (filter (\<lambda>f. endsWith f ''.jsonl'') (readdirSync w dir)))
                 (sum_list (map (\<lambda>f. length (record_lines (readFileSync w dir f)))
                    (filter (\<lambda>f. endsWith f ''.jsonl'') (readdirSync w dir))))
           \<and> documents_in (fst (importDb cd c w targetDb dir)) targetDb
               = documents_in w targetDb + documents r)"
proof -
  from db_connected[OF assms(1)] obtain h where h: "db c = Inr h" ..
  have a: "snd (cloneDb c w sourceDb targetDb) = Inr Void"
    by (simp add: cloneDb_def Let_def h)
  from cloneDbToClient_effect[OF assms, of targetDb]
  have b: "snd (cloneDbToClient c w sourceDb targetClient targetDb)
          = Inr (ImportResult (length (collection_names w sourceDb))
                   (sum_list (map (countDocuments w sourceDb) (collection_names w sourceDb))))"
    and b': "documents_in (fst (cloneDbToClient c w sourceDb targetClient targetDb)) targetDb
          = documents_in w targetDb
            + sum_list (map (countDocuments w sourceDb) (collection_names w sourceDb))"
    by auto
  from exportDb_effect[OF assms(1), of cd w sourceDb dir]
  have e: "snd (exportDb cd c w sourceDb dir)
          = Inr (ExportResult (length (collection_names w sourceDb))
                   (sum_list (map (countDocuments w sourceDb) (collection_names w sourceDb))) dir)"
    by auto
  have i: "\<forall>r. snd (importDb cd c w targetDb dir) = Inr r \<longrightarrow>
           r = ImportResult (length (filter (\<lambda>f. endsWith f ''.jsonl'') (readdirSync w dir)))
                 (sum_list (map (\<lambda>f. length (record_lines (readFileSync w dir f)))
                    (filter (\<lambda>f. endsWith f ''.jsonl'') (readdirSync w dir))))
           \<and> documents_in (fst (importDb cd c w targetDb dir)) targetDb
               = documents_in w targetDb + documents r"
  proof (intro allI impI)
    fix r assume r: "snd (importDb cd c w targetDb dir) = Inr r"
    obtain w' where "importDb cd c w targetDb dir = (w', Inr r)"
      using r by (cases "importDb cd c w targetDb dir") auto
    from importDb_effect[OF this] this
    show "r = ImportResult (length (filter (\<lambda>f. endsWith f ''.jsonl'') (readdirSync w dir)))
                 (sum_list (map (\<lambda>f. length (record_lines (readFileSync w dir f)))
                    (filter (\<lambda>f. endsWith f ''.jsonl'') (readdirSync w dir))))
           \<and> documents_in (fst (importDb cd c w targetDb dir)) targetDb
               = documents_in w targetDb + documents r"
      by simp
  qed
  show ?thesis using a b b' e i by blast
qed

theorem transfer_results_witness:
  "client connected \<noteq> None \<and> distinct (collection_names sample_world ''db1'')
   \<and> snd (cloneDb connected sample_world ''db1'' ''copy'') = Inr Void
   \<and> snd (cloneDbToClient connected sample_world ''db1'' connected ''copy'') = Inr (ImportResult 2 3)
   \<and> snd (exportDb sample_codec connected sample_world ''db1'' ''out'') = Inr (ExportResult 2 3 ''out'')"
proof -
  have c: "client connected \<noteq> None" by (simp add: connected_def connect_def new_MongoClient_def)
  have d: "distinct (collection_names sample_world ''db1'')"
    by (simp add: collection_names_def sample_world_def empty_world_def)
  have n: "length (collection_names sample_world ''db1'') = 2"
    by (simp add: collection_names_def sample_world_def empty_world_def)
  have s: "sum_list (map (countDocuments sample_world ''db1'') (collection_names sample_world ''db1'')) = 3"
    by (simp add: collection_names_def countDocuments_def find_all_def sample_world_def empty_world_def)
  show ?thesis
    using c d transfer_results[OF c c d, where targetDb = "''copy''" and cd = sample_codec and dir = "''out''"]
    by (simp only: n s) simp
qed

section \<open>Index replication\<close>

text \<open>
  C5. The index descriptors \<open>cloneDb\<close>, \<open>cloneDbToClient\<close> and \<open>importDb\<close> create on the sink
  are the raw descriptors of the source (for \<open>importDb\<close> those of the sidecar file)
  without the one named \<open>_id_\<close> and with \<open>v\<close> and \<open>ns\<close> removed from each: every other
  field keeps its value and its place. They are created by one \<open>createIndexes\<close> call per
  collection, and by none when no descriptor is left. The implicit index with one named
  unique index replicates as one descriptor, without \<open>v\<close> and \<open>ns\<close>, with \<open>unique: true\<close>.
\<close>

theorem index_replication:
  assumes "client c \<noteq> None" and "client targetClient \<noteq> None"
    and "distinct (collection_names w sourceDb)" and "col \<in> set (collection_names w sourceDb)"
  shows "(\<forall>idx\<in>set (userIndexes raw).
            map_of idx ''name'' \<noteq> Some (JStr ''_id_'') \<and> map_of idx ''v'' = None \<and> map_of idx ''ns'' = None)
     \<and> length (userIndexes raw) = length (filter not_implicit raw)
     \<and> (\<forall>i<length (userIndexes raw).
            (\<forall>k. k \<noteq> ''v'' \<and> k \<noteq> ''ns'' \<longrightarrow>
               map_of (userIndexes raw ! i) k = map_of (filter not_implicit raw ! i) k)
            \<and> map fst (userIndexes raw ! i)
                = filter (\<lambda>k. k \<noteq> ''v'' \<and> k \<noteq> ''ns'') (map fst (filter not_implicit raw ! i)))
     \<and> createdIndexes (fst (cloneDb c w sourceDb targetDb)) (targetDb, col)
          = createdIndexes w (targetDb, col)
            @ (if userIndexes (indexes w sourceDb col) = [] then []
               else [userIndexes (indexes w sourceDb col)])
     \<and> createdIndexes (fst (cloneDbToClient c w sourceDb targetClient targetDb)) (targetDb, col)
          = createdIndexes w (targetDb, col)
            @ (if userIndexes (indexes w sourceDb col) = [] then []
               else [userIndexes (indexes w sourceDb col)])
     \<and> (\<forall>w' r f t rawIndexes.
           importDb cd c w targetDb dir = (w', Inr r) \<and> distinct (readdirSync w dir)
           \<and> f \<in> set (readdirSync w dir) \<and> endsWith f ''.jsonl''
           \<and> file_at w dir (replace_jsonl f @ ''.indexes.json'') = Some t
           \<and> json_parse cd t = Some rawIndexes \<longrightarrow>
           createdIndexes w' (targetDb, replace_jsonl f)
             = createdIndexes w (targetDb, replace_jsonl f)
               @ (if userIndexes rawIndexes = [] then [] else [userIndexes rawIndexes]))"
proof -
  have p1: "\<forall>idx\<in>set (userIndexes raw).
            map_of idx ''name'' \<noteq> Some (JStr ''_id_'') \<and> map_of idx ''v'' = None \<and> map_of idx ''ns'' = None"
    by (auto simp: userIndexes_def map_of_rest not_implicit_def)
  have p2: "length (userIndexes raw) = length (filter not_implicit raw)"
    by (rule length_userIndexes)
  have p3: "\<forall>i<length (userIndexes raw).
            (\<forall>k. k \<noteq> ''v'' \<and> k \<noteq> ''ns'' \<longrightarrow>
               map_of (userIndexes raw ! i) k = map_of (filter not_implicit raw ! i) k)
            \<and> map fst (userIndexes raw ! i)
                = filter (\<lambda>k. k \<noteq> ''v'' \<and> k \<noteq> ''ns'') (map fst (filter not_implicit raw ! i))"
    by (simp add: nth_userIndexes map_of_rest keys_rest)
  from cloneDb_effect[OF assms(1,3), of targetDb] assms(4)
  have p4: "createdIndexes (fst (cloneDb c w sourceDb targetDb)) (targetDb, col)
          = createdIndexes w (targetDb, col)
            @ (if userIndexes (indexes w sourceDb col) = [] then []
               else [userIndexes (indexes w sourceDb col)])"
    by auto
  from cloneDbToClient_effect[OF assms(1,2,3), of targetDb] assms(4)
  have p5: "createdIndexes (fst (cloneDbToClient c w sourceDb targetClient targetDb)) (targetDb, col)
          = createdIndexes w (targetDb, col)
            @ (if userIndexes (indexes w sourceDb col) = [] then []
               else [userIndexes (indexes w sourceDb col)])"
    by auto
  have p6: "\<forall>w' r f t rawIndexes.
           importDb cd c w targetDb dir = (w', Inr r) \<and> distinct (readdirSync w dir)
           \<and> f \<in> set (readdirSync w dir) \<and> endsWith f ''.jsonl''
           \<and> file_at w dir (replace_jsonl f @ ''.indexes.json'') = Some t
           \<and> json_parse cd t = Some rawIndexes \<longrightarrow>
           createdIndexes w' (targetDb, replace_jsonl f)
             = createdIndexes w (targetDb, replace_jsonl f)
               @ (if userIndexes rawIndexes = [] then [] else [userIndexes rawIndexes])"
  proof (intro allI impI, elim conjE)
    fix w' r f t rawIndexes
    assume i: "importDb cd c w targetDb dir = (w', Inr r)" and d: "distinct (readdirSync w dir)"
      and f: "f \<in> set (readdirSync w dir)" "endsWith f ''.jsonl''"
      and t: "file_at w dir (replace_jsonl f @ ''.indexes.json'') = Some t" "json_parse cd t = Some rawIndexes"
    have sc: "sidecar_indexes cd w dir (replace_jsonl f) = userIndexes rawIndexes"
      using t by (simp add: sidecar_indexes_def)
    have m: "replace_jsonl f \<in> replace_jsonl ` {f \<in> set (readdirSync w dir). endsWith f ''.jsonl''}"
      using f by blast
    from importDb_effect[OF i] d
    have "createdIndexes w' (targetDb, replace_jsonl f) = createdIndexes w (targetDb, replace_jsonl f) @
              (if targetDb = targetDb
                  \<and> replace_jsonl f \<in> replace_jsonl ` {f \<in> set (readdirSync w dir). endsWith f ''.jsonl''}
                  \<and> sidecar_indexes cd w dir (replace_jsonl f) \<noteq> []
               then [sidecar_indexes cd w dir (replace_jsonl f)] else [])"
      by blast
    then show "createdIndexes w' (targetDb, replace_jsonl f)
             = createdIndexes w (targetDb, replace_jsonl f)
               @ (if userIndexes rawIndexes = [] then [] else [userIndexes rawIndexes])"
      using m by (simp add: sc)
  qed
  show ?thesis using p1 p2 p3 p4 p5 p6 by blast
qed

theorem index_replication_witness:
  "client connected \<noteq> None \<and> distinct (collection_names sample_world ''db1'')
   \<and> ''users'' \<in> set (collection_names sample_world ''db1'')
   \<and> indexes sample_world ''db1'' ''users'' = [implicit_index, email_1]
   \<and> userIndexes [implicit_index, email_1]
       = [[(''name'', JStr ''email_1''), (''key'', JObj [(''email'', JNum 1)]), (''unique'', JBool True)]]
   \<and> createdIndexes (fst (cloneDb connected sample_world ''db1'' ''copy'')) (''copy'', ''users'')
       = [[[(''name'', JStr ''email_1''), (''key'', JObj [(''email'', JNum 1)]), (''unique'', JBool True)]]]"
proof -
  have c: "client connected \<noteq> None" by (simp add: connected_def connect_def new_MongoClient_def)
  have d: "distinct (collection_names sample_world ''db1'')"
    by (simp add: collection_names_def sample_world_def empty_world_def)
  have m: "''users'' \<in> set (collection_names sample_world ''db1'')"
    by (simp add: collection_names_def sample_world_def empty_world_def)
  have ix: "indexes sample_world ''db1'' ''users'' = [implicit_index, email_1]"
    by (simp add: indexes_def sample_world_def empty_world_def)
  have u: "userIndexes [implicit_index, email_1]
       = [[(''name'', JStr ''email_1''), (''key'', JObj [(''email'', JNum 1)]), (''unique'', JBool True)]]"
    by (simp add: userIndexes_def not_implicit_def rest_def implicit_index_def email_1_def)
  have e: "createdIndexes sample_world (''copy'', ''users'') = []"
    by (simp add: sample_world_def empty_world_def)
  from index_replication[OF c c d m, where targetDb = "''copy''"]
  have "createdIndexes (fst (cloneDb connected sample_world ''db1'' ''copy'')) (''copy'', ''users'')
          = createdIndexes sample_world (''copy'', ''users'')
            @ (if userIndexes (indexes sample_world ''db1'' ''users'') = [] then []
               else [userIndexes (indexes sample_world ''db1'' ''users'')])"
    by blast
  then show ?thesis using c d m ix u e by simp
qed

section \<open>Reading back what was written\<close>







section \<open>Export, then import\<close>



section \<open>The files an import looks at\<close>








lemma files_push_doc [simp]: "files (sink (push_doc d c st doc)) = files (sink st)"
  by (simp add: push_doc_def Let_def)

lemma files_final_flush [simp]: "files (sink (final_flush d c st)) = files (sink st)"
  by (simp add: final_flush_def)








section \<open>Files that are not record files\<close>



end
